theory Spec2Isabelle
  imports Complex_Main "HOL-Library.Log_Nat"
begin

section \<open>JavaScript numbers\<close>

text \<open>
  A JavaScript \<^verbatim>\<open>number\<close> is an IEEE 754 binary64 value: a finite double, given here by
  its exact rational value, an infinity or NaN. The two zeros are one value: they are
  \<^verbatim>\<open>===\<close>, print alike in JSON, and nothing in this program divides by a computed number.
\<close>

datatype double = Finite rat | PosInf | NegInf | NaN

text \<open>The exponent of a positive rational: \<open>2 powi ilog2 x \<le> x < 2 powi (ilog2 x + 1)\<close>.\<close>

definition ilog2 :: "rat \<Rightarrow> int" where
  "ilog2 x = (if 1 \<le> x then bitlen \<lfloor>x\<rfloor> - 1 else - bitlen (\<lceil>1 / x\<rceil> - 1))"

text \<open>The nearest integer, the even one of two equally near.\<close>

definition round_half_even :: "rat \<Rightarrow> int" where
  "round_half_even x =
     (let f = \<lfloor>x\<rfloor>; d = x - of_int f
      in if d < 1 / 2 then f else if 1 / 2 < d then f + 1 else if even f then f else f + 1)"

text \<open>
  Rounding of an exact result to binary64, to nearest with ties to even: doubles near
  \<open>x\<close> are the multiples of \<open>2 powi q\<close>, where \<open>q\<close> leaves 53 bits for the
  significand and is at least \<open>-1074\<close> (the subnormal range); a result that reaches
  \<open>2 ^ 1024\<close> is an infinity.
\<close>

definition to_double :: "rat \<Rightarrow> double" where
  "to_double x =
     (if x = 0 then Finite 0
      else (let q = max (ilog2 \<bar>x\<bar> - 52) (- 1074);
                m = round_half_even (\<bar>x\<bar> / 2 powi q);
                y = of_int m * 2 powi q
            in if 2 ^ 1024 \<le> y then (if 0 < x then PosInf else NegInf)
               else Finite (if 0 < x then y else - y)))"

text \<open>
  An integer token count as the program holds it: the double nearest to it (the integer
  itself up to \<open>2 ^ 53\<close>).
\<close>

definition double_of_int :: "int \<Rightarrow> double" where
  "double_of_int n = to_double (of_int n)"

text \<open>The operators \<^verbatim>\<open>+\<close> and \<^verbatim>\<open>*\<close> on numbers.\<close>

fun dadd :: "double \<Rightarrow> double \<Rightarrow> double" where
  "dadd (Finite a) (Finite b) = to_double (a + b)"
| "dadd NaN y = NaN"
| "dadd x NaN = NaN"
| "dadd PosInf NegInf = NaN"
| "dadd NegInf PosInf = NaN"
| "dadd PosInf y = PosInf"
| "dadd NegInf y = NegInf"
| "dadd x PosInf = PosInf"
| "dadd x NegInf = NegInf"

fun dmul :: "double \<Rightarrow> double \<Rightarrow> double" where
  "dmul (Finite a) (Finite b) = to_double (a * b)"
| "dmul NaN y = NaN"
| "dmul x NaN = NaN"
| "dmul (Finite a) PosInf = (if a = 0 then NaN else if 0 < a then PosInf else NegInf)"
| "dmul (Finite a) NegInf = (if a = 0 then NaN else if 0 < a then NegInf else PosInf)"
| "dmul PosInf (Finite b) = (if b = 0 then NaN else if 0 < b then PosInf else NegInf)"
| "dmul NegInf (Finite b) = (if b = 0 then NaN else if 0 < b then NegInf else PosInf)"
| "dmul PosInf PosInf = PosInf"
| "dmul NegInf NegInf = PosInf"
| "dmul PosInf NegInf = NegInf"
| "dmul NegInf PosInf = NegInf"

text \<open>
  The string that \<^verbatim>\<open>toFixed\<close> returns, given by what it denotes: a decimal numeral,
  \<^verbatim>\<open>Infinity\<close>, \<^verbatim>\<open>-Infinity\<close> or \<^verbatim>\<open>NaN\<close>. \<^verbatim>\<open>x.toFixed(6)\<close> works on the absolute
  value of the double, picks the integer \<open>n\<close> with \<open>n / 10^6\<close> nearest to its exact
  value (the larger of two), and prints the number by \<^verbatim>\<open>ToString\<close> from \<open>10^21\<close> on,
  a numeral that reads back as the same double. \<^verbatim>\<open>parseFloat\<close> reads a decimal numeral
  as the double nearest to it.
\<close>

datatype number_text = Decimal rat | InfinityText | MinusInfinityText | NaNText

fun toFixed6 :: "double \<Rightarrow> number_text" where
  "toFixed6 NaN = NaNText"
| "toFixed6 PosInf = InfinityText"
| "toFixed6 NegInf = MinusInfinityText"
| "toFixed6 (Finite x) =
     (if 10 ^ 21 \<le> \<bar>x\<bar> then Decimal x
      else if x < 0 then Decimal (- (of_int \<lfloor>(- x) * 1000000 + 1 / 2\<rfloor> / 1000000))
      else Decimal (of_int \<lfloor>x * 1000000 + 1 / 2\<rfloor> / 1000000))"

fun parseFloat :: "number_text \<Rightarrow> double" where
  "parseFloat (Decimal d) = to_double d"
| "parseFloat InfinityText = PosInf"
| "parseFloat MinusInfinityText = NegInf"
| "parseFloat NaNText = NaN"

section \<open>Data model (types/index.ts)\<close>

text \<open>
  \<^verbatim>\<open>MessageAuthor = 'partner_a' | 'partner_b' | 'ai' | 'system_summary'\<close>.
  A \<^verbatim>\<open>Date\<close> is its number of milliseconds since the epoch. The values of
  \<^verbatim>\<open>uuidv4()\<close> and \<^verbatim>\<open>new Date()\<close> come from outside the program, so every
  function that reads one takes it as an argument.
\<close>

datatype MessageAuthor = partner_a | partner_b | ai | system_summary

record Message =
  m_id :: string
  m_sessionId :: string
  m_author :: MessageAuthor
  m_content :: string
  m_createdAt :: int

record Session =
  s_id :: string
  s_topic :: string
  s_createdAt :: int

record AIResponse =
  r_content :: string
  r_inputTokens :: int
  r_outputTokens :: int

record UsageRecord =
  u_sessionId :: string
  inputTokens :: int
  outputTokens :: int
  model :: string
  u_createdAt :: int

record UsageSummary =
  sum_sessionId :: string
  totalInputTokens :: double
  totalOutputTokens :: double
  totalTokens :: double
  apiCalls :: nat
  estimatedCostUsd :: double

text \<open>A thrown \<^verbatim>\<open>Error\<close> object, with its message.\<close>

datatype error = Error string

section \<open>SessionStore.ts\<close>

text \<open>The two module-level maps \<^verbatim>\<open>sessions\<close> and \<^verbatim>\<open>messages\<close>.\<close>

record store =
  sessions :: "string \<rightharpoonup> Session"
  messages :: "string \<rightharpoonup> Message list"

definition empty_store :: store where
  "empty_store = \<lparr>sessions = Map.empty, messages = Map.empty\<rparr>"

definition getSession :: "store \<Rightarrow> string \<Rightarrow> Session option" where
  "getSession st sessionId = sessions st sessionId"

definition createSession :: "string \<Rightarrow> string \<Rightarrow> int \<Rightarrow> store \<Rightarrow> Session \<times> store" where
  "createSession sessionId topic now st =
     (let session = \<lparr>s_id = sessionId, s_topic = topic, s_createdAt = now\<rparr>
      in (session,
          st\<lparr>sessions := (sessions st)(sessionId \<mapsto> session),
             messages := (messages st)(sessionId \<mapsto> [])\<rparr>))"

definition addMessage :: "string \<Rightarrow> Message \<Rightarrow> store \<Rightarrow> error + store" where
  "addMessage sessionId message st =
     (case messages st sessionId of
        None \<Rightarrow> Inl (Error (''Session '' @ sessionId @ '' not found''))
      | Some sessionMessages \<Rightarrow>
          Inr (st\<lparr>messages := (messages st)(sessionId \<mapsto> sessionMessages @ [message])\<rparr>))"

definition getMessages :: "store \<Rightarrow> string \<Rightarrow> Message list" where
  "getMessages st sessionId =
     (case messages st sessionId of None \<Rightarrow> [] | Some ms \<Rightarrow> ms)"

section \<open>MessageService.ts\<close>

text \<open>
  \<^verbatim>\<open>saveMessage(sessionId, author, content, topic?)\<close>. The optional topic is a
  \<open>string option\<close>; \<^verbatim>\<open>topic ?? 'Untitled Decision'\<close> replaces only an absent one.
  \<open>uuid\<close> is the value of \<^verbatim>\<open>uuidv4()\<close>, \<open>sessionNow\<close> and \<open>messageNow\<close> are the
  clock readings of the two \<^verbatim>\<open>new Date()\<close>. The function returns its result
  together with the store as the call leaves it, also when it throws.
\<close>

definition saveMessage ::
  "string \<Rightarrow> MessageAuthor \<Rightarrow> string \<Rightarrow> string option \<Rightarrow> string \<Rightarrow> int \<Rightarrow> int \<Rightarrow> store
     \<Rightarrow> (error + Message) \<times> store" where
  "saveMessage sessionId author content topic uuid sessionNow messageNow st =
     (let st1 = (if getSession st sessionId = None
                 then snd (createSession sessionId
                        (case topic of None \<Rightarrow> ''Untitled Decision'' | Some t \<Rightarrow> t)
                        sessionNow st)
                 else st);
          message = \<lparr>m_id = uuid, m_sessionId = sessionId, m_author = author,
                     m_content = content, m_createdAt = messageNow\<rparr>
      in case addMessage sessionId message st1 of
           Inl e \<Rightarrow> (Inl e, st1)
         | Inr st2 \<Rightarrow> (Inr message, st2))"

definition getConversationHistory :: "store \<Rightarrow> string \<Rightarrow> Message list" where
  "getConversationHistory st sessionId = getMessages st sessionId"

definition MessageService_getSession :: "store \<Rightarrow> string \<Rightarrow> Session option" where
  "MessageService_getSession st sessionId = getSession st sessionId"

section \<open>UsageService.ts\<close>

type_synonym usageStore = "string \<rightharpoonup> UsageRecord list"

text \<open>\<^verbatim>\<open>3.0 / 1_000_000\<close> and \<^verbatim>\<open>15.0 / 1_000_000\<close>: the quotients, rounded.\<close>

definition COST_PER_INPUT_TOKEN :: double where
  "COST_PER_INPUT_TOKEN = to_double (3 / 1000000)"

definition COST_PER_OUTPUT_TOKEN :: double where
  "COST_PER_OUTPUT_TOKEN = to_double (15 / 1000000)"

text \<open>
  \<^verbatim>\<open>recordUsage\<close> has no \<^verbatim>\<open>throw\<close>: it initialises the session's array when the
  key is missing and pushes the record. Token counts are integers.
\<close>

definition recordUsage ::
  "string \<Rightarrow> int \<Rightarrow> int \<Rightarrow> string \<Rightarrow> int \<Rightarrow> usageStore \<Rightarrow> usageStore" where
  "recordUsage sessionId inTok outTok mdl now us =
     (let us1 = (if us sessionId = None then us(sessionId \<mapsto> []) else us);
          r = \<lparr>u_sessionId = sessionId, inputTokens = inTok, outputTokens = outTok,
               model = mdl, u_createdAt = now\<rparr>
      in case us1 sessionId of
           None \<Rightarrow> us1
         | Some rs \<Rightarrow> us1(sessionId \<mapsto> rs @ [r]))"

definition getSessionUsageRecords :: "usageStore \<Rightarrow> string \<Rightarrow> UsageRecord list" where
  "getSessionUsageRecords us sessionId =
     (case us sessionId of None \<Rightarrow> [] | Some rs \<Rightarrow> rs)"

text \<open>
  \<^verbatim>\<open>getSessionUsage\<close> computes in double arithmetic: the two \<^verbatim>\<open>reduce\<close> calls add
  the counts from the left, starting at 0, and the cost is
  \<^verbatim>\<open>parseFloat((totalIn * COST_PER_INPUT_TOKEN + totalOut * COST_PER_OUTPUT_TOKEN).toFixed(6))\<close>.
\<close>

definition getSessionUsage :: "usageStore \<Rightarrow> string \<Rightarrow> UsageSummary" where
  "getSessionUsage us sessionId =
     (let records = (case us sessionId of None \<Rightarrow> [] | Some rs \<Rightarrow> rs);
          totalIn = foldl (\<lambda>sum r. dadd sum (double_of_int (inputTokens r))) (Finite 0) records;
          totalOut = foldl (\<lambda>sum r. dadd sum (double_of_int (outputTokens r))) (Finite 0) records
      in \<lparr>sum_sessionId = sessionId,
          totalInputTokens = totalIn,
          totalOutputTokens = totalOut,
          totalTokens = dadd totalIn totalOut,
          apiCalls = length records,
          estimatedCostUsd =
            parseFloat (toFixed6 (dadd (dmul totalIn COST_PER_INPUT_TOKEN)
                                       (dmul totalOut COST_PER_OUTPUT_TOKEN)))\<rparr>)"

section \<open>AIService.ts\<close>

definition AI_MODEL :: string where
  "AI_MODEL = ''claude-sonnet-4-5-20250929''"

text \<open>One entry of the request's \<^verbatim>\<open>messages\<close> array (\<^verbatim>\<open>Anthropic.MessageParam\<close>).\<close>

datatype Role = user | assistant

record MessageParam =
  role :: Role
  content :: string

definition formatMessagesForClaude :: "Message list \<Rightarrow> MessageParam list" where
  "formatMessagesForClaude msgs =
     map (\<lambda>msg.
            if m_author msg = ai
            then \<lparr>role = assistant, content = m_content msg\<rparr>
            else (let label = (if m_author msg = partner_a then ''Partner A'' else ''Partner B'')
                  in \<lparr>role = user, content = label @ '': '' @ m_content msg\<rparr>))
         msgs"

text \<open>
  What the code reads of the API's response: the content blocks, each with its
  \<^verbatim>\<open>type\<close> tag and, for a text block, its \<^verbatim>\<open>text\<close>, and the two token counts of
  \<^verbatim>\<open>response.usage\<close>.
\<close>

record ContentBlock =
  b_type :: string
  b_text :: string

record ModelResponse =
  response_content :: "ContentBlock list"
  input_tokens :: int
  output_tokens :: int

text \<open>
  Everything the environment supplies while the second half of a turn runs: how the
  awaited \<^verbatim>\<open>messages.create\<close> settled (rejected with an error, or fulfilled with a
  response), and the clock readings and the uuid that \<^verbatim>\<open>recordUsage\<close> and
  \<^verbatim>\<open>saveMessage\<close> read.
\<close>

record completion =
  reply :: "error + ModelResponse"
  c_usageNow :: int
  c_uuid :: string
  c_sessionNow :: int
  c_messageNow :: int

text \<open>
  The state of the backend's modules. A promise is an address: \<open>allocated\<close> counts the
  lock promises created so far, \<open>settled\<close> holds those whose \<^verbatim>\<open>resolve\<close> was called,
  and \<open>sessionLocks\<close> maps a session to the promise stored for it.
\<close>

record world =
  db :: store
  usage :: usageStore
  sessionLocks :: "string \<rightharpoonup> nat"
  settled :: "nat set"
  allocated :: nat

definition empty_world :: world where
  "empty_world = \<lparr>db = empty_store, usage = Map.empty, sessionLocks = Map.empty,
                  settled = {}, allocated = 0\<rparr>"

text \<open>
  A call of the async function \<^verbatim>\<open>getAIResponse\<close> is suspended at one of its two
  \<^verbatim>\<open>await\<close>s, or has returned. \<open>AwaitLock s p\<close>: at \<^verbatim>\<open>await existingLock\<close>, where
  \<open>p\<close> is the promise found in the map. \<open>AwaitModel s lock req\<close>: inside the
  \<^verbatim>\<open>try\<close>, at \<^verbatim>\<open>await getClient().messages.create(...)\<close>, having stored its own
  promise \<open>lock\<close> and sent the request \<open>req\<close>.
\<close>

datatype task =
    AwaitLock string nat
  | AwaitModel string nat "MessageParam list"
  | Returned "error + AIResponse"

text \<open>
  JavaScript runs a call without interruption from one \<^verbatim>\<open>await\<close> to the next, so
  \<^verbatim>\<open>getAIResponse\<close> is three uninterrupted pieces. \<open>getAIResponse_acquire\<close> is the
  code from \<^verbatim>\<open>new Promise\<close> to the model call.
\<close>

definition getAIResponse_acquire :: "string \<Rightarrow> world \<Rightarrow> task \<times> world" where
  "getAIResponse_acquire sessionId w =
     (let lock = allocated w;
          w1 = w\<lparr>allocated := Suc lock,
                 sessionLocks := (sessionLocks w)(sessionId \<mapsto> lock)\<rparr>;
          history = getConversationHistory (db w1) sessionId;
          claudeMessages = formatMessagesForClaude history
      in (AwaitModel sessionId lock claudeMessages, w1))"

text \<open>The call itself: with no promise stored for the session it goes straight on.\<close>

definition getAIResponse_enter :: "string \<Rightarrow> world \<Rightarrow> task \<times> world" where
  "getAIResponse_enter sessionId w =
     (case sessionLocks w sessionId of
        Some existingLock \<Rightarrow> (AwaitLock sessionId existingLock, w)
      | None \<Rightarrow> getAIResponse_acquire sessionId w)"

text \<open>
  The rest of the \<^verbatim>\<open>try\<close> block once the model call has settled, then the
  \<^verbatim>\<open>finally\<close> block, which runs on every path.
\<close>

definition getAIResponse_finish ::
  "string \<Rightarrow> nat \<Rightarrow> completion \<Rightarrow> world \<Rightarrow> (error + AIResponse) \<times> world" where
  "getAIResponse_finish sessionId lock c w =
     (let (result, w2) =
            (case reply c of
               Inl e \<Rightarrow> (Inl e, w)
             | Inr response \<Rightarrow>
                 (let textBlock = find (\<lambda>block. b_type block = ''text'') (response_content response);
                      aiContent = (case textBlock of Some b \<Rightarrow> b_text b | None \<Rightarrow> []);
                      w1 = w\<lparr>usage := recordUsage sessionId (input_tokens response)
                                        (output_tokens response) AI_MODEL (c_usageNow c) (usage w)\<rparr>;
                      (saved, st) = saveMessage sessionId ai aiContent None (c_uuid c)
                                      (c_sessionNow c) (c_messageNow c) (db w1)
                  in (case saved of
                        Inl e \<Rightarrow> (Inl e, w1\<lparr>db := st\<rparr>)
                      | Inr _ \<Rightarrow>
                          (Inr \<lparr>r_content = aiContent,
                                r_inputTokens = input_tokens response,
                                r_outputTokens = output_tokens response\<rparr>,
                           w1\<lparr>db := st\<rparr>))))
      in (result,
          w2\<lparr>settled := insert lock (settled w2),
             sessionLocks := (sessionLocks w2)(sessionId := None)\<rparr>))"

subsection \<open>Interleaving of calls\<close>

text \<open>
  The calls in flight, in order of arrival, and what can happen next: a new call arrives;
  the call at index \<open>i\<close>, waiting for a promise that has been resolved, continues; the
  model call of the call at index \<open>i\<close> settles. An event that cannot happen in the
  current state gives \<open>None\<close>.
\<close>

datatype event =
    Call string
  | LockSettled nat
  | ModelSettled nat completion

fun step :: "event \<Rightarrow> world \<times> task list \<Rightarrow> (world \<times> task list) option" where
  "step (Call sessionId) (w, ts) =
     (let (t, w') = getAIResponse_enter sessionId w in Some (w', ts @ [t]))"
| "step (LockSettled i) (w, ts) =
     (if i < length ts
      then (case ts ! i of
              AwaitLock sessionId p \<Rightarrow>
                (if p \<in> settled w
                 then (let (t, w') = getAIResponse_acquire sessionId w in Some (w', ts[i := t]))
                 else None)
            | _ \<Rightarrow> None)
      else None)"
| "step (ModelSettled i c) (w, ts) =
     (if i < length ts
      then (case ts ! i of
              AwaitModel sessionId lock req \<Rightarrow>
                (let (r, w') = getAIResponse_finish sessionId lock c w
                 in Some (w', ts[i := Returned r]))
            | _ \<Rightarrow> None)
      else None)"

fun run :: "event list \<Rightarrow> world \<times> task list \<Rightarrow> (world \<times> task list) option" where
  "run [] s = Some s"
| "run (ev # evs) s = (case step ev s of None \<Rightarrow> None | Some s' \<Rightarrow> run evs s')"

text \<open>A call is past lock acquisition for a session when it is inside the \<^verbatim>\<open>try\<close>.\<close>

fun past_lock :: "string \<Rightarrow> task \<Rightarrow> bool" where
  "past_lock s (AwaitModel sessionId lock req) = (sessionId = s)"
| "past_lock s _ = False"

definition past_lock_count :: "string \<Rightarrow> world \<times> task list \<Rightarrow> nat" where
  "past_lock_count s sys = length (filter (past_lock s) (snd sys))"

section \<open>The store's invariant and example states\<close>

text \<open>
  \<^verbatim>\<open>createSession\<close> is the only writer of a key into either map and writes both, so
  the two maps always have the same keys.
\<close>

definition store_inv :: "store \<Rightarrow> bool" where
  "store_inv st = (dom (sessions st) = dom (messages st))"

text \<open>The store after one message of the first partner on a new session.\<close>

definition demo_store :: store where
  "demo_store =
     snd (saveMessage ''s1'' partner_a ''Should we move?'' (Some ''Moving'') ''u1'' 10 11
            empty_store)"

definition demo_world :: world where
  "demo_world = empty_world\<lparr>db := demo_store\<rparr>"

definition demo_message :: Message where
  "demo_message = \<lparr>m_id = ''u9'', m_sessionId = ''s1'', m_author = partner_b,
                    m_content = ''Not sure'', m_createdAt = 12\<rparr>"

definition demo_history :: "Message list" where
  "demo_history =
     [\<lparr>m_id = ''u1'', m_sessionId = ''s1'', m_author = partner_a,
       m_content = ''Should we move?'', m_createdAt = 11\<rparr>,
      \<lparr>m_id = ''u2'', m_sessionId = ''s1'', m_author = ai,
       m_content = ''What matters most?'', m_createdAt = 22\<rparr>,
      \<lparr>m_id = ''u3'', m_sessionId = ''s1'', m_author = partner_b,
       m_content = ''The heat'', m_createdAt = 30\<rparr>,
      \<lparr>m_id = ''u4'', m_sessionId = ''s1'', m_author = system_summary,
       m_content = ''They discussed moving'', m_createdAt = 40\<rparr>]"

text \<open>A response whose first text block comes second, one with no text block, a failure.\<close>

definition demo_response :: ModelResponse where
  "demo_response =
     \<lparr>response_content = [\<lparr>b_type = ''thinking'', b_text = ''''\<rparr>,
                           \<lparr>b_type = ''text'', b_text = ''What matters most?''\<rparr>,
                           \<lparr>b_type = ''text'', b_text = ''Anything else?''\<rparr>],
      input_tokens = 120, output_tokens = 340\<rparr>"

definition demo_reply :: completion where
  "demo_reply =
     \<lparr>reply = Inr demo_response,
      c_usageNow = 20, c_uuid = ''u2'', c_sessionNow = 21, c_messageNow = 22\<rparr>"

definition demo_response_no_text :: ModelResponse where
  "demo_response_no_text =
     \<lparr>response_content = [\<lparr>b_type = ''tool_use'', b_text = ''''\<rparr>],
      input_tokens = 50, output_tokens = 7\<rparr>"

definition demo_reply_no_text :: completion where
  "demo_reply_no_text =
     \<lparr>reply = Inr demo_response_no_text,
      c_usageNow = 20, c_uuid = ''u2'', c_sessionNow = 21, c_messageNow = 22\<rparr>"

definition demo_failure :: completion where
  "demo_failure =
     \<lparr>reply = Inl (Error ''overloaded''),
      c_usageNow = 20, c_uuid = ''u2'', c_sessionNow = 21, c_messageNow = 22\<rparr>"

text \<open>
  Usage stores: the spec's scenario of one call with 120 and 340 tokens, two calls, and
  two calls whose input counts add up to more than \<open>2 ^ 53\<close>.
\<close>

definition scenario_c :: usageStore where
  "scenario_c = recordUsage ''s1'' 120 340 ''model-x'' 0 Map.empty"

definition demo_usage :: usageStore where
  "demo_usage = recordUsage ''s1'' 80 60 ''model-x'' 1
                  (recordUsage ''s1'' 120 340 ''model-x'' 0 Map.empty)"

definition big_sum :: usageStore where
  "big_sum = recordUsage ''s1'' 2 0 ''model-x'' 1
               (recordUsage ''s1'' 9007199254740991 0 ''model-x'' 0 Map.empty)"

text \<open>
  \<open>near k y x\<close>: \<open>y\<close> is \<open>x\<close> up to \<open>k\<close> roundings, each of relative error at
  most \<open>2 ^ -53\<close>.
\<close>

definition near :: "nat \<Rightarrow> rat \<Rightarrow> rat \<Rightarrow> bool" where
  "near k y x = (x * (1 - 1 / 2 ^ 53) ^ k \<le> y \<and> y \<le> x * (1 + 1 / 2 ^ 53) ^ k)"

section \<open>Lemmas\<close>

lemma demo_store_eq:
  "demo_store =
     \<lparr>sessions = [''s1'' \<mapsto> \<lparr>s_id = ''s1'', s_topic = ''Moving'', s_createdAt = 10\<rparr>],
      messages = [''s1'' \<mapsto> [\<lparr>m_id = ''u1'', m_sessionId = ''s1'', m_author = partner_a,
                               m_content = ''Should we move?'', m_createdAt = 11\<rparr>]]\<rparr>"
  by (simp add: demo_store_def saveMessage_def getSession_def createSession_def
        addMessage_def empty_store_def Let_def)

lemma store_inv_keys: "store_inv st \<Longrightarrow> sessions st sid = None \<longleftrightarrow> messages st sid = None"
  unfolding store_inv_def by (metis domIff)

lemma store_inv_empty: "store_inv empty_store"
  by (simp add: store_inv_def empty_store_def)

lemma store_inv_demo: "store_inv demo_store"
  by (simp add: demo_store_eq store_inv_def)

lemma store_inv_createSession:
  "store_inv st \<Longrightarrow> store_inv (snd (createSession sid topic now st))"
  by (simp add: store_inv_def createSession_def Let_def)

lemma store_inv_addMessage:
  assumes inv: "store_inv st" and add: "addMessage sid msg st = Inr st'"
  shows "store_inv st'"
proof -
  from add obtain ms where ms: "messages st sid = Some ms"
    and st': "st' = st\<lparr>messages := (messages st)(sid \<mapsto> ms @ [msg])\<rparr>"
    by (auto simp: addMessage_def split: option.splits)
  from ms have "sid \<in> dom (messages st)" by (rule domI)
  then have "dom (messages st') = dom (messages st)"
    by (simp add: st' insert_absorb)
  with inv show ?thesis
    by (simp add: store_inv_def st')
qed

text \<open>On a store with the invariant \<^verbatim>\<open>saveMessage\<close> cannot throw.\<close>

lemma saveMessage_Inr:
  assumes "store_inv st"
  shows "\<exists>st'. saveMessage sid author text topic u sessionNow messageNow st
             = (Inr \<lparr>m_id = u, m_sessionId = sid, m_author = author, m_content = text,
                     m_createdAt = messageNow\<rparr>, st') \<and>
           getConversationHistory st' sid
             = getConversationHistory st sid
               @ [\<lparr>m_id = u, m_sessionId = sid, m_author = author, m_content = text,
                   m_createdAt = messageNow\<rparr>] \<and>
           (getSession st sid = None \<longrightarrow>
              getSession st' sid
                = Some \<lparr>s_id = sid,
                        s_topic = (case topic of None \<Rightarrow> ''Untitled Decision'' | Some t \<Rightarrow> t),
                        s_createdAt = sessionNow\<rparr>) \<and>
           (getSession st sid \<noteq> None \<longrightarrow> getSession st' sid = getSession st sid) \<and>
           (\<forall>s. s \<noteq> sid \<longrightarrow> getSession st' s = getSession st s \<and>
                            getConversationHistory st' s = getConversationHistory st s) \<and>
           store_inv st'"
proof (cases "sessions st sid")
  case None
  with store_inv_keys [OF assms, of sid] have "messages st sid = None" by simp
  with None assms show ?thesis
    by (simp add: saveMessage_def getSession_def createSession_def addMessage_def
          getConversationHistory_def getMessages_def store_inv_def Let_def)
next
  case (Some s)
  with store_inv_keys [OF assms, of sid] obtain ms where "messages st sid = Some ms" by auto
  with Some assms show ?thesis
    by (auto simp: saveMessage_def getSession_def addMessage_def
          getConversationHistory_def getMessages_def store_inv_def Let_def)
qed

subsection \<open>Rounding to a double\<close>

lemma two_powi_nat: "0 \<le> k \<Longrightarrow> (2::rat) powi k = 2 ^ nat k"
  by (simp add: power_int_def)

lemma two_powi_neg: "0 \<le> k \<Longrightarrow> (2::rat) powi (- k) = 1 / 2 ^ nat k"
  by (simp add: power_int_minus_divide two_powi_nat)

lemma two_powi_pos [simp]: "0 < (2::rat) powi k"
  by (simp add: zero_less_power_int)

lemma ilog2_ge1:
  assumes "1 \<le> x"
  shows "2 powi ilog2 x \<le> x \<and> x < 2 powi (ilog2 x + 1)"
proof -
  let ?n = "\<lfloor>x\<rfloor>"
  from assms have n: "0 < ?n" by simp
  from bitlen_bounds [OF n]
  have lo: "2 ^ nat (bitlen ?n - 1) \<le> ?n" and hi: "?n < 2 ^ nat (bitlen ?n)" by simp_all
  from n have bl: "1 \<le> bitlen ?n"
    using bitlen_eq_zero_iff [of ?n] bitlen_nonneg [of ?n] by linarith
  have e: "ilog2 x = bitlen ?n - 1" using assms by (simp add: ilog2_def)
  have "(2::rat) powi ilog2 x = of_int (2 ^ nat (bitlen ?n - 1))"
    using bl by (simp add: e two_powi_nat)
  also have "\<dots> \<le> of_int ?n" using lo by (simp only: of_int_le_iff)
  also have "\<dots> \<le> x" by simp
  finally have A: "2 powi ilog2 x \<le> x" .
  from hi have "?n + 1 \<le> 2 ^ nat (bitlen ?n)" by simp
  then have "(of_int (?n + 1) :: rat) \<le> of_int (2 ^ nat (bitlen ?n))"
    by (simp only: of_int_le_iff)
  moreover have "x < of_int (?n + 1)" by simp linarith
  moreover have "(2::rat) powi (ilog2 x + 1) = of_int (2 ^ nat (bitlen ?n))"
    using bl by (simp add: e two_powi_nat)
  ultimately have B: "x < 2 powi (ilog2 x + 1)" by simp
  from A B show ?thesis ..
qed

lemma ilog2_lt1:
  assumes "0 < x" and "x < 1"
  shows "2 powi ilog2 x \<le> x \<and> x < 2 powi (ilog2 x + 1)"
proof -
  let ?y = "1 / x"
  let ?c = "\<lceil>?y\<rceil>"
  let ?k = "bitlen (?c - 1)"
  from assms have y1: "1 < ?y" by simp
  then have c2: "2 \<le> ?c" by (simp add: le_ceiling_iff) 
  then have n: "0 < ?c - 1" by simp
  from bitlen_bounds [OF n]
  have lo: "2 ^ nat (?k - 1) \<le> ?c - 1" and hi: "?c - 1 < 2 ^ nat ?k" by simp_all
  from n have bl: "1 \<le> ?k"
    using bitlen_eq_zero_iff [of "?c - 1"] bitlen_nonneg [of "?c - 1"] by linarith
  have e: "ilog2 x = - ?k" using assms by (simp add: ilog2_def)
  from hi have "?c \<le> 2 ^ nat ?k" by simp
  then have ck: "(of_int ?c :: rat) \<le> of_int (2 ^ nat ?k)" by (simp only: of_int_le_iff)
  have "?y \<le> of_int ?c" by (rule le_of_int_ceiling)
  also note ck
  finally have yk: "?y \<le> 2 ^ nat ?k" by simp
  have "1 / 2 ^ nat ?k \<le> x"
  proof -
    from yk assms have "1 \<le> x * 2 ^ nat ?k" by (simp add: field_simps)
    then show ?thesis by (simp add: field_simps)
  qed
  then have A: "2 powi ilog2 x \<le> x"
    using bl by (simp add: e two_powi_neg)
  have "(of_int (2 ^ nat (?k - 1)) :: rat) \<le> of_int (?c - 1)"
    using lo by (simp only: of_int_le_iff)
  moreover have "of_int (?c - 1) < ?y" by simp linarith
  ultimately have "2 ^ nat (?k - 1) < ?y" by simp
  then have "x * 2 ^ nat (?k - 1) < 1" using assms by (simp add: field_simps)
  then have "x < 1 / 2 ^ nat (?k - 1)" by (simp add: field_simps)
  moreover have "(2::rat) powi (ilog2 x + 1) = 1 / 2 ^ nat (?k - 1)"
    using bl two_powi_neg [of "?k - 1"] by (simp add: e)
  ultimately have B: "x < 2 powi (ilog2 x + 1)" by simp
  from A B show ?thesis ..
qed

lemma ilog2_bounds:
  "0 < x \<Longrightarrow> 2 powi ilog2 x \<le> x \<and> x < 2 powi (ilog2 x + 1)"
  using ilog2_ge1 [of x] ilog2_lt1 [of x] by (cases "1 \<le> x") simp_all

lemma ilog2_unique:
  assumes "2 powi e \<le> x" and "x < 2 powi (e + 1)"
  shows "ilog2 x = e"
proof -
  have pos: "0 < x" using assms(1) two_powi_pos [of e] by linarith
  from ilog2_bounds [OF pos]
  have lo: "2 powi ilog2 x \<le> x" and hi: "x < 2 powi (ilog2 x + 1)" by simp_all
  have "(2::rat) powi e < 2 powi (ilog2 x + 1)" using assms(1) hi by linarith
  then have "e < ilog2 x + 1"
    by (metis not_less power_int_increasing one_le_numeral)
  moreover have "(2::rat) powi ilog2 x < 2 powi (e + 1)" using assms(2) lo by linarith
  then have "ilog2 x < e + 1"
    by (metis not_less power_int_increasing one_le_numeral)
  ultimately show ?thesis by linarith
qed

lemma rhe_cases: "round_half_even x = \<lfloor>x\<rfloor> \<or> round_half_even x = \<lfloor>x\<rfloor> + 1"
  by (simp add: round_half_even_def Let_def)

lemma rhe_error: "\<bar>of_int (round_half_even x) - x\<bar> \<le> 1 / 2"
proof -
  have "of_int \<lfloor>x\<rfloor> \<le> x" "x < of_int \<lfloor>x\<rfloor> + 1" by linarith+
  then show ?thesis
    by (auto simp: round_half_even_def Let_def abs_le_iff)
qed

lemma rhe_of_int [simp]: "round_half_even (of_int k) = k"
  by (simp add: round_half_even_def)

lemma rhe_le: "x \<le> of_int k \<Longrightarrow> round_half_even x \<le> k"
proof (cases "x = of_int k")
  case True
  then show ?thesis by simp
next
  case False
  assume "x \<le> of_int k"
  with False have "x < of_int k" by simp
  then have "\<lfloor>x\<rfloor> < k" by (simp add: floor_less_iff)
  with rhe_cases [of x] show ?thesis by linarith
qed

lemma rhe_ge: "of_int k \<le> x \<Longrightarrow> k \<le> round_half_even x"
proof -
  assume "of_int k \<le> x"
  then have "k \<le> \<lfloor>x\<rfloor>" by (simp add: le_floor_iff)
  with rhe_cases [of x] show ?thesis by linarith
qed

lemma two_powi_add: "(2::rat) powi (a + b) = 2 powi a * 2 powi b"
  by (simp add: power_int_add)

lemma two_powi_diff: "(2::rat) powi (a - b) = 2 powi a / 2 powi b"
  by (simp add: power_int_diff)

lemma two_powi_mono: "a \<le> b \<Longrightarrow> (2::rat) powi a \<le> 2 powi b"
  by (simp add: power_int_increasing)

lemma two_powi_less_cancel: "(2::rat) powi a < 2 powi b \<Longrightarrow> a < b"
  by (metis not_less power_int_increasing one_le_numeral)

lemma to_double_normal:
  assumes lo: "2 powi e \<le> x" and hi: "x < 2 powi (e + 1)"
    and e1: "- 1022 \<le> e" and e2: "e \<le> 1022"
  shows "to_double x = Finite (of_int (round_half_even (x / 2 powi (e - 52))) * 2 powi (e - 52))"
proof -
  let ?q = "e - 52"
  let ?m = "round_half_even (x / 2 powi ?q)"
  have pos: "0 < x" using lo two_powi_pos [of e] by linarith
  have il: "ilog2 \<bar>x\<bar> = e" using pos ilog2_unique [OF lo hi] by simp
  have q: "max (ilog2 \<bar>x\<bar> - 52) (- 1074) = ?q" using il e1 by simp
  have "x / 2 powi ?q < 2 powi (e + 1) / 2 powi ?q"
    using hi by (simp add: divide_strict_right_mono)
  also have "\<dots> = 2 powi ((e + 1) - ?q)" by (simp only: two_powi_diff)
  also have "\<dots> = of_int (2 ^ 53)" by (simp add: two_powi_nat)
  finally have "x / 2 powi ?q \<le> of_int (2 ^ 53)" by simp
  then have m: "?m \<le> 2 ^ 53" by (rule rhe_le)
  have "of_int ?m * 2 powi ?q \<le> of_int (2 ^ 53) * (2::rat) powi ?q"
    using m by (intro mult_right_mono) (simp_all only: of_int_le_iff, simp)
  also have "\<dots> = 2 powi (e + 1)"
  proof -
    have p53: "(of_int (2 ^ 53) :: rat) = 2 powi 53" by (simp add: two_powi_nat)
    have ex: "53 + ?q = e + 1" by simp
    show ?thesis unfolding p53 two_powi_add [symmetric] ex ..
  qed
  also have "\<dots> \<le> 2 powi 1023" using e2 by (intro two_powi_mono) simp
  also have "\<dots> < 2 ^ 1024" by (simp add: two_powi_nat)
  finally have y: "\<not> 2 ^ 1024 \<le> of_int ?m * (2::rat) powi ?q" by simp
  show ?thesis
    using pos y unfolding to_double_def q Let_def by (simp add: abs_of_pos)
qed

lemma to_double_error:
  assumes lo: "2 powi e \<le> x" and hi: "x < 2 powi (e + 1)"
    and e1: "- 1022 \<le> e" and e2: "e \<le> 1022"
  shows "\<exists>y. to_double x = Finite y \<and> \<bar>y - x\<bar> \<le> x / 2 ^ 53"
proof -
  let ?q = "e - 52"
  let ?m = "round_half_even (x / 2 powi ?q)"
  let ?y = "of_int ?m * (2::rat) powi ?q"
  have eq: "to_double x = Finite ?y" using assms by (rule to_double_normal)
  have qpos: "0 < (2::rat) powi ?q" by simp
  have "\<bar>?y - x\<bar> = \<bar>of_int ?m - x / 2 powi ?q\<bar> * 2 powi ?q"
  proof -
    have "?y - x = (of_int ?m - x / 2 powi ?q) * 2 powi ?q"
      using qpos by (simp add: field_simps)
    then show ?thesis using qpos by (simp add: abs_mult)
  qed
  also have "\<dots> \<le> 1 / 2 * 2 powi ?q"
    using rhe_error [of "x / 2 powi ?q"] qpos by (intro mult_right_mono) simp_all
  also have "\<dots> = 2 powi e / 2 ^ 53"
    by (simp add: two_powi_diff two_powi_nat)
  also have "\<dots> \<le> x / 2 ^ 53" using lo by (simp add: divide_right_mono)
  finally show ?thesis using eq by blast
qed

text \<open>Every positive number in the normal range has such an exponent.\<close>

lemma normal_exponent:
  assumes "2 powi (- 1022) \<le> x" and "x < 2 powi 1023"
  shows "2 powi ilog2 x \<le> x \<and> x < 2 powi (ilog2 x + 1) \<and> - 1022 \<le> ilog2 x \<and> ilog2 x \<le> 1022"
proof -
  have pos: "0 < x" using assms(1) two_powi_pos [of "- 1022"] by linarith
  from ilog2_bounds [OF pos]
  have lo: "2 powi ilog2 x \<le> x" and hi: "x < 2 powi (ilog2 x + 1)" by simp_all
  have "(2::rat) powi (- 1022) < 2 powi (ilog2 x + 1)" using assms(1) hi by linarith
  then have "- 1022 < ilog2 x + 1" by (rule two_powi_less_cancel)
  moreover have "(2::rat) powi ilog2 x < 2 powi 1023" using assms(2) lo by linarith
  then have "ilog2 x < 1023" by (rule two_powi_less_cancel)
  ultimately show ?thesis using lo hi by simp
qed

lemma to_double_rel:
  assumes "x = 0 \<or> (2 powi (- 1022) \<le> x \<and> x < 2 powi 1023)"
  shows "\<exists>y. to_double x = Finite y \<and> \<bar>y - x\<bar> \<le> x / 2 ^ 53"
proof (cases "x = 0")
  case True
  then show ?thesis by (simp add: to_double_def)
next
  case False
  with assms have r: "2 powi (- 1022) \<le> x" "x < 2 powi 1023" by simp_all
  from normal_exponent [OF r] show ?thesis
    by (intro to_double_error [of "ilog2 x"]) simp_all
qed

lemma to_double_int:
  assumes "0 \<le> n" and "n \<le> 2 ^ 53"
  shows "to_double (of_int n) = Finite (of_int n)"
proof (cases "n = 0")
  case True
  then show ?thesis by (simp add: to_double_def)
next
  case False
  let ?x = "of_int n :: rat"
  let ?e = "ilog2 ?x"
  from False assms have n1: "1 \<le> n" by simp
  then have x1: "1 \<le> ?x" by simp
  then have pos: "0 < ?x" by simp
  from ilog2_bounds [OF pos]
  have lo: "2 powi ?e \<le> ?x" and hi: "?x < 2 powi (?e + 1)" by simp_all
  have "(2::rat) powi 0 < 2 powi (?e + 1)" using x1 hi by simp
  then have e0: "0 \<le> ?e" using two_powi_less_cancel [of 0 "?e + 1"] by simp
  have x53: "?x \<le> of_int (2 ^ 53)" using assms(2) by (simp only: of_int_le_iff)
  have "(2::rat) powi ?e < 2 powi 54"
  proof -
    have "(2::rat) powi ?e \<le> of_int (2 ^ 53)" using lo x53 by linarith
    also have "\<dots> < 2 powi 54" by (simp add: two_powi_nat)
    finally show ?thesis .
  qed
  then have e54: "?e < 54" by (rule two_powi_less_cancel)
  have norm: "to_double ?x
      = Finite (of_int (round_half_even (?x / 2 powi (?e - 52))) * 2 powi (?e - 52))"
    using lo hi e0 e54 by (intro to_double_normal) simp_all
  show ?thesis
  proof (cases "?e \<le> 52")
    case True
    have sc: "?x / 2 powi (?e - 52) = of_int (n * 2 ^ nat (52 - ?e))"
    proof -
      have "(2::rat) powi (?e - 52) = 1 / 2 ^ nat (52 - ?e)"
        using True two_powi_neg [of "52 - ?e"] by simp
      then show ?thesis by simp
    qed
    have "of_int (n * 2 ^ nat (52 - ?e)) * (2::rat) powi (?e - 52) = ?x"
    proof -
      have "(2::rat) powi (?e - 52) = 1 / 2 ^ nat (52 - ?e)"
        using True two_powi_neg [of "52 - ?e"] by simp
      then show ?thesis by simp
    qed
    then show ?thesis unfolding norm sc rhe_of_int by simp
  next
    case False
    with e54 have e: "?e = 53" by simp
    have "of_int (2 ^ 53) \<le> ?x" using lo by (simp add: e two_powi_nat)
    with x53 have x: "?x = of_int (2 ^ 53)" by linarith
    from norm have norm53: "to_double ?x
        = Finite (of_int (round_half_even (?x / 2 powi (53 - 52))) * 2 powi (53 - 52))"
      by (simp only: e)
    have sc: "?x / 2 powi (53 - 52) = of_int (2 ^ 52)" by (simp add: x)
    show ?thesis unfolding norm53 sc rhe_of_int by (simp add: x)
  qed
qed

lemma rhe_eqI:
  assumes "\<bar>x - of_int m\<bar> < 1 / 2"
  shows "round_half_even x = m"
proof (cases "of_int m \<le> x")
  case True
  with assms have "x < of_int m + 1 / 2" by linarith
  with True have f: "\<lfloor>x\<rfloor> = m" by (intro floor_unique) simp_all
  from assms True show ?thesis
    by (simp add: round_half_even_def Let_def f)
next
  case False
  with assms have lo: "of_int m - 1 / 2 < x" and hi: "x < of_int m" by linarith+
  then have f: "\<lfloor>x\<rfloor> = m - 1" by (intro floor_unique) simp_all
  from lo hi show ?thesis
    by (simp add: round_half_even_def Let_def f)
qed

lemma to_double_eqI:
  assumes "2 powi e \<le> x" and "x < 2 powi (e + 1)" and "- 1022 \<le> e" and "e \<le> 1022"
    and "\<bar>x / 2 powi (e - 52) - of_int m\<bar> < 1 / 2"
  shows "to_double x = Finite (of_int m * 2 powi (e - 52))"
  using to_double_normal [OF assms(1-4)] rhe_eqI [OF assms(5)] by simp

lemma c1_value: "to_double (3 / 1000000) = Finite (1770887431076117 / 590295810358705651712)"
  using to_double_eqI [of "- 19" "3 / 1000000" 7083549724304468]
  by (simp add: power_int_minus_divide)

lemma near_round: "0 \<le> x \<Longrightarrow> \<bar>y - x\<bar> \<le> x / 2 ^ 53 \<Longrightarrow> near 1 y x"
proof -
  assume "\<bar>y - x\<bar> \<le> x / 2 ^ 53"
  then have "y - x \<le> x / 2 ^ 53" and "x - y \<le> x / 2 ^ 53" by linarith+
  then show ?thesis by (simp add: near_def algebra_simps)
qed

lemma near_nonneg: "0 \<le> x \<Longrightarrow> near k y x \<Longrightarrow> 0 \<le> y"
proof -
  assume x: "0 \<le> x" and w: "near k y x"
  have "(0::rat) \<le> (1 - 1 / 2 ^ 53) ^ k" by (intro zero_le_power) simp
  with x have "0 \<le> x * (1 - 1 / 2 ^ 53) ^ k" by (rule mult_nonneg_nonneg)
  with w show ?thesis unfolding near_def by linarith
qed

lemma near_trans:
  assumes x: "0 \<le> x" and xy: "near j y x" and yz: "near k z y"
  shows "near (j + k) z x"
proof -
  have y: "0 \<le> y" using x xy by (rule near_nonneg)
  have lo: "(0::rat) \<le> (1 - 1 / 2 ^ 53) ^ k" and hi: "(0::rat) \<le> (1 + 1 / 2 ^ 53) ^ k"
    by (intro zero_le_power, simp)+
  have "x * (1 - 1 / 2 ^ 53) ^ (j + k) = (x * (1 - 1 / 2 ^ 53) ^ j) * (1 - 1 / 2 ^ 53) ^ k"
    by (simp add: power_add)
  also have "\<dots> \<le> y * (1 - 1 / 2 ^ 53) ^ k"
    using xy lo unfolding near_def by (intro mult_right_mono) simp_all
  also have "\<dots> \<le> z" using yz unfolding near_def by simp
  finally have A: "x * (1 - 1 / 2 ^ 53) ^ (j + k) \<le> z" .
  have "z \<le> y * (1 + 1 / 2 ^ 53) ^ k" using yz unfolding near_def by simp
  also have "\<dots> \<le> (x * (1 + 1 / 2 ^ 53) ^ j) * (1 + 1 / 2 ^ 53) ^ k"
    using xy hi unfolding near_def by (intro mult_right_mono) simp_all
  also have "\<dots> = x * (1 + 1 / 2 ^ 53) ^ (j + k)" by (simp add: power_add)
  finally have B: "z \<le> x * (1 + 1 / 2 ^ 53) ^ (j + k)" .
  from A B show ?thesis unfolding near_def ..
qed

lemma near_scale:
  assumes "0 \<le> a" and "near k y x"
  shows "near k (a * y) (a * x)"
proof -
  from assms have "a * (x * (1 - 1 / 2 ^ 53) ^ k) \<le> a * y"
    and "a * y \<le> a * (x * (1 + 1 / 2 ^ 53) ^ k)"
    unfolding near_def by (simp_all add: mult_left_mono)
  then show ?thesis unfolding near_def by (simp add: mult.assoc)
qed

lemma near_add:
  assumes "near k y1 x1" and "near k y2 x2"
  shows "near k (y1 + y2) (x1 + x2)"
  using assms unfolding near_def by (simp add: distrib_right add_mono)

lemma c2_value: "to_double (15 / 1000000) = Finite (8854437155380585 / 590295810358705651712)"
  using to_double_eqI [of "- 17" "15 / 1000000" 8854437155380585]
  by (simp add: power_int_minus_divide)

lemma to_double_mid:
  assumes "2 powi (- 21) \<le> x" and "x \<le> 2 powi 60"
  shows "\<exists>y. to_double x = Finite y \<and> near 1 y x"
proof -
  have "(2::rat) powi (- 1022) \<le> 2 powi (- 21)" by (intro two_powi_mono) simp
  with assms(1) have lo: "2 powi (- 1022) \<le> x" by linarith
  have "(2::rat) powi 60 < 2 powi 1023" by (intro power_int_strict_increasing) simp_all
  with assms(2) have hi: "x < 2 powi 1023" by linarith
  have pos: "0 \<le> x" using assms(1) two_powi_pos [of "- 21"] by linarith
  from to_double_rel [of x] lo hi
  obtain y where e: "to_double x = Finite y" and d: "\<bar>y - x\<bar> \<le> x / 2 ^ 53" by auto
  from near_round [OF pos d] e show ?thesis by blast
qed

lemma near1_half: "0 \<le> x \<Longrightarrow> near 1 y x \<Longrightarrow> x / 2 \<le> y \<and> y \<le> 2 * x"
  by (simp add: near_def algebra_simps)

text \<open>A token total times a price.\<close>

lemma price_times:
  assumes A: "0 \<le> A" "A \<le> 2 ^ 50"
    and c: "2 powi (- 19) \<le> c" "c \<le> 2 powi (- 16)" and cC: "near 1 c C" and C: "0 \<le> C"
  shows "\<exists>p. dmul (Finite (of_int A)) (Finite c) = Finite p \<and> near 2 p (of_int A * C) \<and>
             (p = 0 \<or> 2 powi (- 20) \<le> p) \<and> p \<le> 2 powi 35"
proof (cases "A = 0")
  case True
  then show ?thesis by (simp add: to_double_def near_def)
next
  case False
  let ?x = "of_int A * c"
  from False A have A1: "(1::rat) \<le> of_int A" by simp
  have A50: "(of_int A :: rat) \<le> 2 powi 50"
  proof -
    from A(2) have "(of_int A :: rat) \<le> of_int (2 ^ 50)" by (simp only: of_int_le_iff)
    then show ?thesis by (simp add: two_powi_nat)
  qed
  have cpos: "0 \<le> c" using c(1) two_powi_pos [of "- 19"] by linarith
  have "c \<le> ?x" using A1 cpos mult_right_mono [of 1 "of_int A" c] by simp
  with c(1) have xlo: "2 powi (- 19) \<le> ?x" by linarith
  have "?x \<le> 2 powi 50 * 2 powi (- 16)"
    using A50 c(2) cpos A1 by (intro mult_mono) simp_all
  also have "\<dots> = 2 powi 34" by (simp add: two_powi_add [symmetric])
  finally have xhi: "?x \<le> 2 powi 34" .
  have "(2::rat) powi (- 21) \<le> 2 powi (- 19)" by (intro two_powi_mono) simp
  moreover have "(2::rat) powi 34 \<le> 2 powi 60" by (intro two_powi_mono) simp
  ultimately obtain p where p: "to_double ?x = Finite p" and np: "near 1 p ?x"
    using to_double_mid [of ?x] xlo xhi by (meson order_trans)
  have xpos: "0 \<le> ?x" using A1 cpos by simp
  from near1_half [OF xpos np] have ph: "?x / 2 \<le> p" "p \<le> 2 * ?x" by simp_all
  have "(2::rat) powi (- 20) = 2 powi (- 19) / 2" 
    by (simp add: power_int_minus_divide)
  with xlo ph(1) have plo: "2 powi (- 20) \<le> p" by linarith
  have "(2::rat) powi 35 = 2 * 2 powi 34" by simp
  with xhi ph(2) have phi: "p \<le> 2 powi 35" by linarith
  have "near 1 ?x (of_int A * C)" using cC A1 by (intro near_scale) simp_all
  moreover have "0 \<le> of_int A * C" using C A1 by simp
  ultimately have "near (1 + 1) p (of_int A * C)" using np by (intro near_trans)
  then have "near 2 p (of_int A * C)" unfolding one_add_one .
  with p plo phi show ?thesis by simp
qed

lemma final_round:
  assumes s: "near 3 s (of_int N / 1000000)" and N: "0 \<le> N" "N \<le> 2 ^ 50"
  shows "\<lfloor>s * 1000000 + 1 / 2\<rfloor> = N \<and> 0 \<le> s \<and> \<bar>s\<bar> < 10 ^ 21"
proof -
  let ?n = "of_int N :: rat"
  have n0: "0 \<le> ?n" using N(1) by simp
  have n50: "?n \<le> 2 ^ 50"
  proof -
    from N(2) have "?n \<le> of_int (2 ^ 50)" by (simp only: of_int_le_iff)
    then show ?thesis by simp
  qed
  have hi3: "(1 + 1 / 2 ^ 53) ^ 3 \<le> (1 + 7 / 2 ^ 54 :: rat)" by (simp add: power3_eq_cube)
  have lo3: "(1 - 7 / 2 ^ 54 :: rat) \<le> (1 - 1 / 2 ^ 53) ^ 3" by (simp add: power3_eq_cube)
  from s have sl: "?n / 1000000 * (1 - 1 / 2 ^ 53) ^ 3 \<le> s"
    and sh: "s \<le> ?n / 1000000 * (1 + 1 / 2 ^ 53) ^ 3"
    unfolding near_def by simp_all
  have "?n / 1000000 * (1 - 7 / 2 ^ 54) \<le> ?n / 1000000 * (1 - 1 / 2 ^ 53) ^ 3"
    using n0 lo3 by (intro mult_left_mono) simp_all
  with sl have "?n / 1000000 * (1 - 7 / 2 ^ 54) \<le> s" by linarith
  then have L: "?n - ?n * 7 / 2 ^ 54 \<le> s * 1000000" by (simp add: field_simps)
  have "?n / 1000000 * (1 + 1 / 2 ^ 53) ^ 3 \<le> ?n / 1000000 * (1 + 7 / 2 ^ 54)"
    using n0 hi3 by (intro mult_left_mono) simp_all
  with sh have "s \<le> ?n / 1000000 * (1 + 7 / 2 ^ 54)" by linarith
  then have H: "s * 1000000 \<le> ?n + ?n * 7 / 2 ^ 54" by (simp add: field_simps)
  have err: "?n * 7 / 2 ^ 54 \<le> 7 / 16" using n50 by simp
  have fl: "\<lfloor>s * 1000000 + 1 / 2\<rfloor> = N"
    using L H err by (intro floor_unique) linarith+
  have s0: "0 \<le> s"
    using s n0 by (intro near_nonneg [of "of_int N / 1000000" 3 s]) simp_all
  have "s * 1000000 \<le> 2 ^ 50 + 7 / 16" using H err n50 by linarith
  then have "s < 10 ^ 21" by simp
  with fl s0 show ?thesis by simp
qed

lemma c1_range: "2 powi (- 19) \<le> (1770887431076117 / 590295810358705651712 :: rat)"
  "(1770887431076117 / 590295810358705651712 :: rat) \<le> 2 powi (- 16)"
  "near 1 (1770887431076117 / 590295810358705651712) (3 / 1000000)"
  by (simp_all add: power_int_minus_divide near_def)

lemma c2_range: "2 powi (- 19) \<le> (8854437155380585 / 590295810358705651712 :: rat)"
  "(8854437155380585 / 590295810358705651712 :: rat) \<le> 2 powi (- 16)"
  "near 1 (8854437155380585 / 590295810358705651712) (15 / 1000000)"
  by (simp_all add: power_int_minus_divide near_def)

lemma cost_nearest:
  assumes A: "0 \<le> A" and B: "0 \<le> B" and N: "3 * A + 15 * B \<le> 2 ^ 50"
  shows "parseFloat (toFixed6 (dadd (dmul (Finite (of_int A)) COST_PER_INPUT_TOKEN)
                                    (dmul (Finite (of_int B)) COST_PER_OUTPUT_TOKEN)))
           = to_double (of_int A * (3 / 1000000) + of_int B * (15 / 1000000))"
proof -
  let ?c1 = "1770887431076117 / 590295810358705651712 :: rat"
  let ?c2 = "8854437155380585 / 590295810358705651712 :: rat"
  let ?X = "of_int A * (3 / 1000000) + of_int B * (15 / 1000000) :: rat"
  from A B N have A50: "A \<le> 2 ^ 50" and B50: "B \<le> 2 ^ 50" by simp_all
  from price_times [OF A A50 c1_range(1,2,3)]
  obtain p1 where p1: "dmul (Finite (of_int A)) (Finite ?c1) = Finite p1"
    and n1: "near 2 p1 (of_int A * (3 / 1000000))"
    and r1: "p1 = 0 \<or> 2 powi (- 20) \<le> p1" and h1: "p1 \<le> 2 powi 35" by auto
  from price_times [OF B B50 c2_range(1,2,3)]
  obtain p2 where p2: "dmul (Finite (of_int B)) (Finite ?c2) = Finite p2"
    and n2: "near 2 p2 (of_int B * (15 / 1000000))"
    and r2: "p2 = 0 \<or> 2 powi (- 20) \<le> p2" and h2: "p2 \<le> 2 powi 35" by auto
  have X0: "0 \<le> ?X" using A B by simp
  have n12: "near 2 (p1 + p2) ?X" using n1 n2 by (rule near_add)
  have q: "0 < (2::rat) powi (- 20)" by simp
  have "\<exists>s. to_double (p1 + p2) = Finite s \<and> near 1 s (p1 + p2)"
  proof (cases "p1 + p2 = 0")
    case True
    then show ?thesis by (simp add: to_double_def near_def)
  next
    case False
    have "(2::rat) powi (- 21) \<le> 2 powi (- 20)" by (intro two_powi_mono) simp
    with False r1 r2 q have lo: "2 powi (- 21) \<le> p1 + p2" by auto
    have "(2::rat) powi 35 + 2 powi 35 = 2 powi 36" by simp
    moreover have "(2::rat) powi 36 \<le> 2 powi 60" by (intro two_powi_mono) simp
    ultimately have hi: "p1 + p2 \<le> 2 powi 60" using h1 h2 by linarith
    from lo hi show ?thesis by (rule to_double_mid)
  qed
  then obtain s where s: "to_double (p1 + p2) = Finite s" and ns: "near 1 s (p1 + p2)" by blast
  have "near (2 + 1) s ?X" using X0 n12 ns by (rule near_trans)
  then have n3: "near 3 s ?X" by simp
  have XN: "?X = of_int (3 * A + 15 * B) / 1000000" by simp
  have N0: "0 \<le> 3 * A + 15 * B" using A B by simp
  from final_round [OF n3 [unfolded XN] N0 N]
  have fl: "\<lfloor>s * 1000000 + 1 / 2\<rfloor> = 3 * A + 15 * B" and s0: "0 \<le> s" and s21: "\<bar>s\<bar> < 10 ^ 21"
    by blast+
  have "toFixed6 (Finite s) = Decimal (of_int (3 * A + 15 * B) / 1000000)"
    using s0 s21 fl by simp
  then have R: "parseFloat (toFixed6 (Finite s)) = to_double ?X"
    by (simp only: parseFloat.simps XN)
  have E: "dadd (dmul (Finite (of_int A)) COST_PER_INPUT_TOKEN)
                (dmul (Finite (of_int B)) COST_PER_OUTPUT_TOKEN) = Finite s"
    unfolding COST_PER_INPUT_TOKEN_def COST_PER_OUTPUT_TOKEN_def c1_value c2_value p1 p2
      dadd.simps s ..
  show ?thesis unfolding E by (rule R)
qed

lemma rhe_tie_even: "x = of_int m + 1 / 2 \<Longrightarrow> even m \<Longrightarrow> round_half_even x = m"
proof -
  assume x: "x = of_int m + 1 / 2" and m: "even m"
  have f: "\<lfloor>x\<rfloor> = m" unfolding x by (intro floor_unique) simp_all
  show ?thesis using m by (simp add: round_half_even_def Let_def f) (simp add: x)
qed

lemma foldl_dadd_exact:
  assumes "\<forall>r\<in>set rs. 0 \<le> f r" and "0 \<le> a" and "a + sum_list (map f rs) \<le> 2 ^ 53"
  shows "foldl (\<lambda>sum r. dadd sum (double_of_int (f r))) (Finite (of_int a)) rs
           = Finite (of_int (a + sum_list (map f rs)))"
  using assms
proof (induction rs arbitrary: a)
  case Nil
  then show ?case by simp
next
  case (Cons r rs)
  from Cons.prems(1) have r0: "0 \<le> f r" and rest: "\<forall>r\<in>set rs. 0 \<le> f r" by simp_all
  from rest have s0: "0 \<le> sum_list (map f rs)" by (intro sum_list_nonneg) auto
  from Cons.prems(2,3) r0 s0 have r53: "f r \<le> 2 ^ 53" and ar: "a + f r \<le> 2 ^ 53" by simp_all
  have "dadd (Finite (of_int a)) (double_of_int (f r)) = to_double (of_int (a + f r))"
    using to_double_int [OF r0 r53] by (simp add: double_of_int_def)
  also have "\<dots> = Finite (of_int (a + f r))"
    using Cons.prems(2) r0 ar by (intro to_double_int) simp_all
  finally have step: "dadd (Finite (of_int a)) (double_of_int (f r)) = Finite (of_int (a + f r))" .
  have "foldl (\<lambda>sum r. dadd sum (double_of_int (f r))) (Finite (of_int (a + f r))) rs
          = Finite (of_int ((a + f r) + sum_list (map f rs)))"
    using rest Cons.prems(2,3) r0 by (intro Cons.IH) simp_all
  then show ?case by (simp add: step add.assoc)
qed

lemma totals_exact:
  assumes "\<forall>r\<in>set rs. 0 \<le> f r" and "sum_list (map f rs) \<le> 2 ^ 53"
  shows "foldl (\<lambda>sum r. dadd sum (double_of_int (f r))) (Finite 0) rs
           = Finite (of_int (sum_list (map f rs)))"
  using foldl_dadd_exact [of rs f 0] assms by simp

lemma usage_summary:
  fixes us sid
  defines "rs \<equiv> getSessionUsageRecords us sid" and "s \<equiv> getSessionUsage us sid"
  defines "A \<equiv> sum_list (map inputTokens rs)" and "B \<equiv> sum_list (map outputTokens rs)"
  shows "apiCalls s = length rs"
    and "totalTokens s = dadd (totalInputTokens s) (totalOutputTokens s)"
    and "estimatedCostUsd s
           = parseFloat (toFixed6 (dadd (dmul (totalInputTokens s) COST_PER_INPUT_TOKEN)
                                        (dmul (totalOutputTokens s) COST_PER_OUTPUT_TOKEN)))"
    and "(\<forall>r\<in>set rs. 0 \<le> inputTokens r \<and> 0 \<le> outputTokens r) \<Longrightarrow> 3 * A + 15 * B \<le> 2 ^ 50 \<Longrightarrow>
           totalInputTokens s = Finite (of_int A) \<and>
           totalOutputTokens s = Finite (of_int B) \<and>
           totalTokens s = Finite (of_int (A + B)) \<and>
           estimatedCostUsd s = to_double (of_int A * (3 / 1000000) + of_int B * (15 / 1000000))"
proof -
  have rs: "(case us sid of None \<Rightarrow> [] | Some rs \<Rightarrow> rs) = rs"
    by (simp add: rs_def getSessionUsageRecords_def)
  show "apiCalls s = length rs"
    and "totalTokens s = dadd (totalInputTokens s) (totalOutputTokens s)"
    and "estimatedCostUsd s
           = parseFloat (toFixed6 (dadd (dmul (totalInputTokens s) COST_PER_INPUT_TOKEN)
                                        (dmul (totalOutputTokens s) COST_PER_OUTPUT_TOKEN)))"
    by (simp_all add: s_def getSessionUsage_def rs Let_def)
  assume nn: "\<forall>r\<in>set rs. 0 \<le> inputTokens r \<and> 0 \<le> outputTokens r"
    and N: "3 * A + 15 * B \<le> 2 ^ 50"
  have A0: "0 \<le> A" and B0: "0 \<le> B"
    unfolding A_def B_def using nn by (auto intro!: sum_list_nonneg)
  from A0 B0 N have A53: "A \<le> 2 ^ 53" and B53: "B \<le> 2 ^ 53" and AB53: "A + B \<le> 2 ^ 53"
    by simp_all
  have tin: "totalInputTokens s = Finite (of_int A)"
    using totals_exact [of rs inputTokens] nn A53
    by (simp add: s_def getSessionUsage_def rs Let_def A_def)
  have tout: "totalOutputTokens s = Finite (of_int B)"
    using totals_exact [of rs outputTokens] nn B53
    by (simp add: s_def getSessionUsage_def rs Let_def B_def)
  have "dadd (Finite (of_int A)) (Finite (of_int B)) = to_double (of_int (A + B))" by simp
  also have "\<dots> = Finite (of_int (A + B))" using A0 B0 AB53 by (intro to_double_int) simp_all
  finally have tt: "totalTokens s = Finite (of_int (A + B))"
    using \<open>totalTokens s = dadd (totalInputTokens s) (totalOutputTokens s)\<close>
    by (simp only: tin tout)
  have cost: "estimatedCostUsd s
      = to_double (of_int A * (3 / 1000000) + of_int B * (15 / 1000000))"
    unfolding \<open>estimatedCostUsd s = parseFloat (toFixed6 (dadd (dmul (totalInputTokens s)
        COST_PER_INPUT_TOKEN) (dmul (totalOutputTokens s) COST_PER_OUTPUT_TOKEN)))\<close> tin tout
    using A0 B0 N by (rule cost_nearest)
  from tin tout tt cost
  show "totalInputTokens s = Finite (of_int A) \<and>
           totalOutputTokens s = Finite (of_int B) \<and>
           totalTokens s = Finite (of_int (A + B)) \<and>
           estimatedCostUsd s = to_double (of_int A * (3 / 1000000) + of_int B * (15 / 1000000))"
    by simp
qed

lemma p1_value:
  "to_double (120 * (1770887431076117 / 590295810358705651712))
     = Finite (6640827866535439 / 18446744073709551616)"
  using to_double_eqI [of "- 12" "120 * (1770887431076117 / 590295810358705651712)"
                          6640827866535439]
  by (simp add: power_int_minus_divide)

lemma p2_value:
  "to_double (340 * (8854437155380585 / 590295810358705651712))
     = Finite (734987459186865 / 144115188075855872)"
  using to_double_eqI [of "- 8" "340 * (8854437155380585 / 590295810358705651712)"
                          5879899673494920]
  by (simp add: power_int_minus_divide)

lemma s_value:
  "to_double (6640827866535439 / 18446744073709551616 + 734987459186865 / 144115188075855872)
     = Finite (6294951415153385 / 1152921504606846976)"
  using to_double_eqI [of "- 8"
          "6640827866535439 / 18446744073709551616 + 734987459186865 / 144115188075855872"
          6294951415153385]
  by (simp add: power_int_minus_divide)

lemma r_value: "to_double (273 / 50000) = Finite (786868926894173 / 144115188075855872)"
  using to_double_eqI [of "- 8" "273 / 50000" 6294951415153384]
  by (simp add: power_int_minus_divide)

lemma w_value: "to_double (33 / 5000) = Finite (3804640965202595 / 576460752303423488)"
  using to_double_eqI [of "- 8" "33 / 5000" 7609281930405190]
  by (simp add: power_int_minus_divide)

lemma tie_value: "to_double 9007199254740993 = Finite 9007199254740992"
proof -
  have "round_half_even (9007199254740993 / 2 powi (53 - 52)) = 4503599627370496"
    by (intro rhe_tie_even) simp_all
  with to_double_normal [of 53 9007199254740993] show ?thesis by simp
qed

lemma safe_ints:
  "double_of_int 120 = Finite 120" "double_of_int 340 = Finite 340"
  "double_of_int 2 = Finite 2" "double_of_int 0 = Finite 0"
  "double_of_int 9007199254740991 = Finite 9007199254740991"
  "to_double 120 = Finite 120" "to_double 340 = Finite 340"
  "to_double 9007199254740991 = Finite 9007199254740991"
  using to_double_int [of 120] to_double_int [of 340] to_double_int [of 2] to_double_int [of 0]
    to_double_int [of 9007199254740991]
  by (simp_all add: double_of_int_def)


subsection \<open>The turn\<close>

lemma find_first:
  "P b \<Longrightarrow> \<forall>x\<in>set pre. \<not> P x \<Longrightarrow> find P (pre @ b # post) = Some b"
  by (induction pre) simp_all

lemma enter_keeps_data:
  "db (snd (getAIResponse_enter sid w)) = db w \<and> usage (snd (getAIResponse_enter sid w)) = usage w"
  by (simp add: getAIResponse_enter_def getAIResponse_acquire_def Let_def split: option.splits)

lemma acquire_keeps_data:
  "db (snd (getAIResponse_acquire sid w)) = db w \<and>
   usage (snd (getAIResponse_acquire sid w)) = usage w"
  by (simp add: getAIResponse_acquire_def Let_def)

lemma finish_rejected:
  "reply c = Inl e \<Longrightarrow>
     getAIResponse_finish sid lock c w
       = (Inl e, w\<lparr>settled := insert lock (settled w),
                   sessionLocks := (sessionLocks w)(sid := None)\<rparr>)"
  by (simp add: getAIResponse_finish_def)

lemma finish_fulfilled:
  assumes "store_inv (db w)" and "reply c = Inr response"
  shows "\<exists>w'. getAIResponse_finish sid lock c w
             = (Inr \<lparr>r_content =
                       (case find (\<lambda>block. b_type block = ''text'') (response_content response) of
                          Some b \<Rightarrow> b_text b | None \<Rightarrow> []),
                     r_inputTokens = input_tokens response,
                     r_outputTokens = output_tokens response\<rparr>, w') \<and>
           getConversationHistory (db w') sid
             = getConversationHistory (db w) sid
               @ [\<lparr>m_id = c_uuid c, m_sessionId = sid, m_author = ai,
                   m_content =
                     (case find (\<lambda>block. b_type block = ''text'') (response_content response) of
                        Some b \<Rightarrow> b_text b | None \<Rightarrow> []),
                   m_createdAt = c_messageNow c\<rparr>] \<and>
           store_inv (db w')"
proof -
  let ?text = "case find (\<lambda>block. b_type block = ''text'') (response_content response) of
                 Some b \<Rightarrow> b_text b | None \<Rightarrow> []"
  from saveMessage_Inr [OF assms(1)]
  obtain st' where save:
      "saveMessage sid ai ?text None (c_uuid c) (c_sessionNow c) (c_messageNow c) (db w)
         = (Inr \<lparr>m_id = c_uuid c, m_sessionId = sid, m_author = ai, m_content = ?text,
                 m_createdAt = c_messageNow c\<rparr>, st')"
    and hist:
      "getConversationHistory st' sid
         = getConversationHistory (db w) sid
           @ [\<lparr>m_id = c_uuid c, m_sessionId = sid, m_author = ai, m_content = ?text,
               m_createdAt = c_messageNow c\<rparr>]"
    and inv: "store_inv st'"
    by blast
  show ?thesis
    by (simp add: getAIResponse_finish_def assms(2) Let_def save hist inv)
qed

text \<open>No event breaks the store's invariant.\<close>

lemma finish_store_inv:
  assumes "store_inv (db w)"
  shows "store_inv (db (snd (getAIResponse_finish sid lock c w)))"
proof (cases "reply c")
  case (Inl e)
  with assms show ?thesis by (simp add: finish_rejected)
next
  case (Inr response)
  from finish_fulfilled [OF assms Inr, of sid lock] show ?thesis by auto
qed

lemma step_store_inv:
  assumes "store_inv (db (fst s))" and "step ev s = Some s'"
  shows "store_inv (db (fst s'))"
proof (cases s)
  case (Pair w ts)
  show ?thesis
  proof (cases ev)
    case (Call sid)
    with assms Pair enter_keeps_data [of sid w] show ?thesis
      by (auto split: prod.splits)
  next
    case (LockSettled i)
    with assms Pair show ?thesis
      using acquire_keeps_data
      by (auto split: prod.splits if_splits task.splits) (metis snd_conv)
  next
    case (ModelSettled i c)
    with assms Pair show ?thesis
      using finish_store_inv
      by (auto split: prod.splits if_splits task.splits) (metis snd_conv)
  qed
qed

lemma run_store_inv:
  "store_inv (db (fst s)) \<Longrightarrow> run evs s = Some s' \<Longrightarrow> store_inv (db (fst s'))"
proof (induction evs arbitrary: s)
  case Nil
  then show ?case by simp
next
  case (Cons ev evs)
  then show ?case
    by (auto split: option.splits dest: step_store_inv)
qed

text \<open>
  With one call waiting the lock does its work: the second call cannot continue while the
  first awaits the model, and continues alone once the first has finished.
\<close>

lemma second_call_waits:
  "run [Call ''s1'', Call ''s1'', LockSettled 1] (demo_world, []) = None \<and>
   map_option snd
     (run [Call ''s1'', Call ''s1'', ModelSettled 0 demo_reply, LockSettled 1] (demo_world, []))
     = Some [Returned (Inr \<lparr>r_content = ''What matters most?'', r_inputTokens = 120,
                            r_outputTokens = 340\<rparr>),
             AwaitModel ''s1'' 1
               [\<lparr>role = user, content = ''Partner A: Should we move?''\<rparr>,
                \<lparr>role = assistant, content = ''What matters most?''\<rparr>]]"
  by (simp add: demo_world_def demo_store_eq demo_reply_def demo_response_def empty_world_def
        getAIResponse_enter_def getAIResponse_acquire_def getAIResponse_finish_def
        getConversationHistory_def getMessages_def formatMessagesForClaude_def
        recordUsage_def saveMessage_def getSession_def addMessage_def AI_MODEL_def Let_def)

section \<open>Claims\<close>

subsection \<open>The per-session lock\<close>

text \<open>
  C1. Calls of \<^verbatim>\<open>getAIResponse\<close> for one session should run one at a time: at most one
  of them is past lock acquisition at any moment. The code does not achieve this with three
  calls. The first call holds the lock; the second and the third both find the first
  call's promise in the map and wait for that same promise. When the first call finishes,
  both continue, each stores a promise of its own, and both send the same transcript to
  the model: two calls are past lock acquisition together.
\<close>

theorem three_calls_overlap:
  "map_option snd (run [Call ''s1'', Call ''s1'', Call ''s1''] (demo_world, []))
     = Some [AwaitModel ''s1'' 0 [\<lparr>role = user, content = ''Partner A: Should we move?''\<rparr>],
             AwaitLock ''s1'' 0,
             AwaitLock ''s1'' 0] \<and>
   map_option snd
     (run [Call ''s1'', Call ''s1'', Call ''s1'', ModelSettled 0 demo_reply,
           LockSettled 1, LockSettled 2] (demo_world, []))
     = Some [Returned (Inr \<lparr>r_content = ''What matters most?'', r_inputTokens = 120,
                            r_outputTokens = 340\<rparr>),
             AwaitModel ''s1'' 1
               [\<lparr>role = user, content = ''Partner A: Should we move?''\<rparr>,
                \<lparr>role = assistant, content = ''What matters most?''\<rparr>],
             AwaitModel ''s1'' 2
               [\<lparr>role = user, content = ''Partner A: Should we move?''\<rparr>,
                \<lparr>role = assistant, content = ''What matters most?''\<rparr>]] \<and>
   map_option (past_lock_count ''s1'')
     (run [Call ''s1'', Call ''s1'', Call ''s1'', ModelSettled 0 demo_reply,
           LockSettled 1, LockSettled 2] (demo_world, []))
     = Some 2"
  by (simp add: demo_world_def demo_store_eq demo_reply_def demo_response_def empty_world_def
        getAIResponse_enter_def getAIResponse_acquire_def getAIResponse_finish_def
        getConversationHistory_def getMessages_def formatMessagesForClaude_def
        recordUsage_def saveMessage_def getSession_def addMessage_def AI_MODEL_def
        past_lock_count_def Let_def)

subsection \<open>SessionStore\<close>

text \<open>
  C2, as the code has it. \<^verbatim>\<open>createSession\<close> has no check for an existing id and never
  fails: it returns the new session record, stores it under the id in place of any
  record already there, and sets that id's message sequence to the empty one. Other
  sessions and their messages are unchanged.
\<close>

theorem createSession_replaces:
  "createSession sid topic now st = (s, st') \<Longrightarrow>
     s = \<lparr>s_id = sid, s_topic = topic, s_createdAt = now\<rparr> \<and>
     getSession st' sid = Some s \<and>
     getMessages st' sid = [] \<and>
     (\<forall>x. x \<noteq> sid \<longrightarrow> getSession st' x = getSession st x \<and> getMessages st' x = getMessages st x)"
  by (auto simp: createSession_def getSession_def getMessages_def Let_def)

theorem createSession_replaces_witness:
  "createSession ''s2'' ''Budget'' 20 demo_store
     = (\<lparr>s_id = ''s2'', s_topic = ''Budget'', s_createdAt = 20\<rparr>,
        snd (createSession ''s2'' ''Budget'' 20 demo_store)) \<and>
   getSession (snd (createSession ''s2'' ''Budget'' 20 demo_store)) ''s2''
     = Some \<lparr>s_id = ''s2'', s_topic = ''Budget'', s_createdAt = 20\<rparr> \<and>
   getMessages (snd (createSession ''s2'' ''Budget'' 20 demo_store)) ''s2'' = [] \<and>
   getSession (snd (createSession ''s2'' ''Budget'' 20 demo_store)) ''s1''
     = getSession demo_store ''s1'' \<and>
   getMessages (snd (createSession ''s2'' ''Budget'' 20 demo_store)) ''s1''
     = getMessages demo_store ''s1''"
  using createSession_replaces
          [of "''s2''" "''Budget''" 20 demo_store
              "\<lparr>s_id = ''s2'', s_topic = ''Budget'', s_createdAt = 20\<rparr>"
              "snd (createSession ''s2'' ''Budget'' 20 demo_store)"]
  by (simp add: createSession_def Let_def)

text \<open>
  C2 as stated fails: a second \<^verbatim>\<open>createSession\<close> for the id of a session that holds
  a message returns a session record instead of failing, the stored record now has the
  second topic, and the session's message sequence is empty.
\<close>

theorem createSession_twice_counterexample:
  "getSession demo_store ''s1'' = Some \<lparr>s_id = ''s1'', s_topic = ''Moving'', s_createdAt = 10\<rparr> \<and>
   getMessages demo_store ''s1'' \<noteq> [] \<and>
   fst (createSession ''s1'' ''Budget'' 20 demo_store)
     = \<lparr>s_id = ''s1'', s_topic = ''Budget'', s_createdAt = 20\<rparr> \<and>
   getSession (snd (createSession ''s1'' ''Budget'' 20 demo_store)) ''s1''
     \<noteq> getSession demo_store ''s1'' \<and>
   getMessages (snd (createSession ''s1'' ''Budget'' 20 demo_store)) ''s1'' = []"
  by (simp add: demo_store_eq createSession_def getSession_def getMessages_def Let_def)

text \<open>
  C9. On a store whose two maps have the same keys, \<^verbatim>\<open>addMessage\<close> throws exactly when
  no session exists for the id, and the error is \<^verbatim>\<open>Session <id> not found\<close>. Otherwise
  it appends the message to the end of that session's sequence; the earlier messages,
  the sequences of all other sessions and the session records are unchanged.
\<close>

theorem addMessage_contract:
  assumes "store_inv st"
  shows "(isl (addMessage sid msg st) \<longleftrightarrow> getSession st sid = None) \<and>
         (getSession st sid = None \<longrightarrow>
            addMessage sid msg st = Inl (Error (''Session '' @ sid @ '' not found''))) \<and>
         (getSession st sid \<noteq> None \<longrightarrow>
            (\<exists>st'. addMessage sid msg st = Inr st' \<and>
                   getMessages st' sid = getMessages st sid @ [msg] \<and>
                   (\<forall>s. s \<noteq> sid \<longrightarrow> messages st' s = messages st s) \<and>
                   sessions st' = sessions st))"
  using store_inv_keys [OF assms, of sid]
  by (cases "messages st sid") (simp_all add: addMessage_def getSession_def getMessages_def)

theorem addMessage_contract_witness:
  "store_inv demo_store \<and>
   getSession demo_store ''s2'' = None \<and>
   addMessage ''s2'' demo_message demo_store = Inl (Error ''Session s2 not found'') \<and>
   getSession demo_store ''s1'' \<noteq> None \<and>
   \<not> isl (addMessage ''s1'' demo_message demo_store) \<and>
   getMessages (projr (addMessage ''s1'' demo_message demo_store)) ''s1''
     = getMessages demo_store ''s1'' @ [demo_message]"
  using addMessage_contract [OF store_inv_demo, of "''s1''" demo_message]
        addMessage_contract [OF store_inv_demo, of "''s2''" demo_message]
        store_inv_demo
  by (simp add: demo_store_eq addMessage_def getSession_def getMessages_def)

subsection \<open>MessageService\<close>

text \<open>
  C6. On a store whose two maps have the same keys, \<^verbatim>\<open>saveMessage\<close> returns the stored
  message, whose id is the generated uuid and whose timestamp is the clock reading. If the
  session did not exist it now does, with the given topic, or \<^verbatim>\<open>Untitled Decision\<close> when
  no topic was given; an existing session record is left as it was. The history of the
  session is the old one with the message appended, so it is longer by exactly one.
\<close>

theorem saveMessage_appends:
  assumes "store_inv st"
  shows "\<exists>st'. saveMessage sid author text topic u sessionNow messageNow st
             = (Inr \<lparr>m_id = u, m_sessionId = sid, m_author = author, m_content = text,
                     m_createdAt = messageNow\<rparr>, st') \<and>
           getConversationHistory st' sid
             = getConversationHistory st sid
               @ [\<lparr>m_id = u, m_sessionId = sid, m_author = author, m_content = text,
                   m_createdAt = messageNow\<rparr>] \<and>
           length (getConversationHistory st' sid) = length (getConversationHistory st sid) + 1 \<and>
           (getSession st sid = None \<longrightarrow>
              getSession st' sid
                = Some \<lparr>s_id = sid,
                        s_topic = (case topic of None \<Rightarrow> ''Untitled Decision'' | Some t \<Rightarrow> t),
                        s_createdAt = sessionNow\<rparr>) \<and>
           (getSession st sid \<noteq> None \<longrightarrow> getSession st' sid = getSession st sid)"
proof (cases "sessions st sid")
  case None
  with store_inv_keys [OF assms, of sid] have "messages st sid = None" by simp
  with None show ?thesis
    by (simp add: saveMessage_def getSession_def createSession_def addMessage_def
          getConversationHistory_def getMessages_def Let_def)
next
  case (Some s)
  with store_inv_keys [OF assms, of sid] obtain ms where "messages st sid = Some ms" by auto
  with Some show ?thesis
    by (simp add: saveMessage_def getSession_def addMessage_def
          getConversationHistory_def getMessages_def Let_def)
qed

theorem saveMessage_appends_witness:
  "store_inv demo_store \<and>
   getSession demo_store ''s2'' = None \<and>
   fst (saveMessage ''s2'' partner_b ''Hello'' None ''u7'' 50 51 demo_store)
     = Inr \<lparr>m_id = ''u7'', m_sessionId = ''s2'', m_author = partner_b, m_content = ''Hello'',
            m_createdAt = 51\<rparr> \<and>
   getSession (snd (saveMessage ''s2'' partner_b ''Hello'' None ''u7'' 50 51 demo_store)) ''s2''
     = Some \<lparr>s_id = ''s2'', s_topic = ''Untitled Decision'', s_createdAt = 50\<rparr> \<and>
   length (getConversationHistory
             (snd (saveMessage ''s2'' partner_b ''Hello'' None ''u7'' 50 51 demo_store)) ''s2'')
     = length (getConversationHistory demo_store ''s2'') + 1 \<and>
   getSession demo_store ''s1'' \<noteq> None \<and>
   getSession (snd (saveMessage ''s1'' partner_b ''Hello'' (Some ''Other'') ''u8'' 60 61
                      demo_store)) ''s1''
     = getSession demo_store ''s1'' \<and>
   length (getConversationHistory
             (snd (saveMessage ''s1'' partner_b ''Hello'' (Some ''Other'') ''u8'' 60 61
                     demo_store)) ''s1'')
     = length (getConversationHistory demo_store ''s1'') + 1"
  using saveMessage_appends [OF store_inv_demo, of "''s2''" partner_b "''Hello''" None "''u7''" 50 51]
        saveMessage_appends [OF store_inv_demo, of "''s1''" partner_b "''Hello''" "Some ''Other''"
                               "''u8''" 60 61]
        store_inv_demo
  by (simp add: demo_store_eq saveMessage_def getSession_def createSession_def addMessage_def
        getConversationHistory_def getMessages_def Let_def)

subsection \<open>UsageService\<close>

text \<open>
  C3, as the code has it. \<^verbatim>\<open>recordUsage\<close> validates nothing and never fails: for every
  pair of token counts, negative ones included, it appends exactly one usage record with
  those counts to the records of the session, and leaves the records of every other
  session as they were.
\<close>

theorem recordUsage_appends:
  "getSessionUsageRecords (recordUsage sid inTok outTok mdl now us) sid
     = getSessionUsageRecords us sid
       @ [\<lparr>u_sessionId = sid, inputTokens = inTok, outputTokens = outTok, model = mdl,
           u_createdAt = now\<rparr>] \<and>
   (\<forall>s. s \<noteq> sid \<longrightarrow> recordUsage sid inTok outTok mdl now us s = us s)"
  by (simp add: recordUsage_def getSessionUsageRecords_def Let_def split: option.splits)

theorem recordUsage_appends_witness:
  "getSessionUsageRecords
     (recordUsage ''s1'' 120 340 ''model-x'' 5 (recordUsage ''s2'' 1 2 ''model-x'' 4 Map.empty))
     ''s1''
     = [\<lparr>u_sessionId = ''s1'', inputTokens = 120, outputTokens = 340, model = ''model-x'',
         u_createdAt = 5\<rparr>] \<and>
   recordUsage ''s1'' 120 340 ''model-x'' 5 (recordUsage ''s2'' 1 2 ''model-x'' 4 Map.empty) ''s2''
     = recordUsage ''s2'' 1 2 ''model-x'' 4 Map.empty ''s2''"
  using recordUsage_appends
          [of "''s1''" 120 340 "''model-x''" 5 "recordUsage ''s2'' 1 2 ''model-x'' 4 Map.empty"]
  by (simp add: getSessionUsageRecords_def recordUsage_def)

text \<open>
  C3 as stated fails: called with negative token counts, \<^verbatim>\<open>recordUsage\<close> does not fail
  but stores a record with those counts.
\<close>

theorem recordUsage_negative_counterexample:
  "getSessionUsageRecords (recordUsage ''s1'' (- 5) (- 7) ''model-x'' 0 Map.empty) ''s1''
     = [\<lparr>u_sessionId = ''s1'', inputTokens = - 5, outputTokens = - 7, model = ''model-x'',
         u_createdAt = 0\<rparr>]"
  by (simp add: recordUsage_def getSessionUsageRecords_def)

text \<open>
  C5, as the code has it. For every usage store and session, the number of calls is the
  number of records, the total is the sum of the input and output totals, and the
  estimated cost is the input total times the input price plus the output total times
  the output price, computed in double arithmetic and then rounded to six decimal places
  by \<^verbatim>\<open>toFixed(6)\<close> and \<^verbatim>\<open>parseFloat\<close>. When all token counts are non-negative and three
  times the sum of the input counts plus fifteen times the sum of the output counts is
  at most \<open>2 ^ 50\<close>, the input and output totals are exactly the sums of the records'
  counts, the total is their sum, and the estimated cost is the double nearest to the
  exact cost, the sum of the input counts times 3 millionths plus the sum of the output
  counts times 15 millionths. With no records every field is zero.
\<close>

theorem getSessionUsage_totals:
  "let rs = getSessionUsageRecords us sid; s = getSessionUsage us sid;
       A = sum_list (map inputTokens rs); B = sum_list (map outputTokens rs) in
     apiCalls s = length rs \<and>
     totalTokens s = dadd (totalInputTokens s) (totalOutputTokens s) \<and>
     estimatedCostUsd s
       = parseFloat (toFixed6 (dadd (dmul (totalInputTokens s) COST_PER_INPUT_TOKEN)
                                    (dmul (totalOutputTokens s) COST_PER_OUTPUT_TOKEN))) \<and>
     ((\<forall>r\<in>set rs. 0 \<le> inputTokens r \<and> 0 \<le> outputTokens r) \<and> 3 * A + 15 * B \<le> 2 ^ 50 \<longrightarrow>
        totalInputTokens s = Finite (of_int A) \<and>
        totalOutputTokens s = Finite (of_int B) \<and>
        totalTokens s = Finite (of_int (A + B)) \<and>
        estimatedCostUsd s = to_double (of_int A * (3 / 1000000) + of_int B * (15 / 1000000))) \<and>
     (rs = [] \<longrightarrow> totalInputTokens s = Finite 0 \<and> totalOutputTokens s = Finite 0 \<and>
                 totalTokens s = Finite 0 \<and> apiCalls s = 0 \<and> estimatedCostUsd s = Finite 0)"
proof -
  let ?rs = "getSessionUsageRecords us sid"
  let ?s = "getSessionUsage us sid"
  let ?A = "sum_list (map inputTokens ?rs)"
  let ?B = "sum_list (map outputTokens ?rs)"
  note basic = usage_summary(1,2,3) [of us sid]
  have safe: "(\<forall>r\<in>set ?rs. 0 \<le> inputTokens r \<and> 0 \<le> outputTokens r) \<and> 3 * ?A + 15 * ?B \<le> 2 ^ 50 \<longrightarrow>
        totalInputTokens ?s = Finite (of_int ?A) \<and>
        totalOutputTokens ?s = Finite (of_int ?B) \<and>
        totalTokens ?s = Finite (of_int (?A + ?B)) \<and>
        estimatedCostUsd ?s = to_double (of_int ?A * (3 / 1000000) + of_int ?B * (15 / 1000000))"
    using usage_summary(4) [of us sid] by blast
  have none: "?rs = [] \<longrightarrow> totalInputTokens ?s = Finite 0 \<and> totalOutputTokens ?s = Finite 0 \<and>
                 totalTokens ?s = Finite 0 \<and> apiCalls ?s = 0 \<and> estimatedCostUsd ?s = Finite 0"
  proof
    assume e: "?rs = []"
    with safe basic(1) show "totalInputTokens ?s = Finite 0 \<and> totalOutputTokens ?s = Finite 0 \<and>
                 totalTokens ?s = Finite 0 \<and> apiCalls ?s = 0 \<and> estimatedCostUsd ?s = Finite 0"
      by (simp add: to_double_def)
  qed
  from basic safe none show ?thesis unfolding Let_def by blast
qed

theorem getSessionUsage_totals_witness:
  "getSessionUsageRecords demo_usage ''s1''
     = [\<lparr>u_sessionId = ''s1'', inputTokens = 120, outputTokens = 340, model = ''model-x'',
         u_createdAt = 0\<rparr>,
        \<lparr>u_sessionId = ''s1'', inputTokens = 80, outputTokens = 60, model = ''model-x'',
         u_createdAt = 1\<rparr>] \<and>
   (3 * 200 + 15 * 400 :: int) \<le> 2 ^ 50 \<and>
   totalInputTokens (getSessionUsage demo_usage ''s1'') = Finite 200 \<and>
   totalOutputTokens (getSessionUsage demo_usage ''s1'') = Finite 400 \<and>
   totalTokens (getSessionUsage demo_usage ''s1'') = Finite 600 \<and>
   apiCalls (getSessionUsage demo_usage ''s1'') = 2 \<and>
   estimatedCostUsd (getSessionUsage demo_usage ''s1'')
     = Finite (3804640965202595 / 576460752303423488) \<and>
   totalInputTokens (getSessionUsage scenario_c ''s1'') = Finite 120 \<and>
   totalOutputTokens (getSessionUsage scenario_c ''s1'') = Finite 340 \<and>
   totalTokens (getSessionUsage scenario_c ''s1'') = Finite 460 \<and>
   apiCalls (getSessionUsage scenario_c ''s1'') = 1 \<and>
   estimatedCostUsd (getSessionUsage scenario_c ''s1'')
     = Finite (786868926894173 / 144115188075855872) \<and>
   getSessionUsageRecords Map.empty ''s1'' = [] \<and>
   totalInputTokens (getSessionUsage Map.empty ''s1'') = Finite 0 \<and>
   totalOutputTokens (getSessionUsage Map.empty ''s1'') = Finite 0 \<and>
   totalTokens (getSessionUsage Map.empty ''s1'') = Finite 0 \<and>
   apiCalls (getSessionUsage Map.empty ''s1'') = 0 \<and>
   estimatedCostUsd (getSessionUsage Map.empty ''s1'') = Finite 0"
proof -
  have rd: "getSessionUsageRecords demo_usage ''s1''
     = [\<lparr>u_sessionId = ''s1'', inputTokens = 120, outputTokens = 340, model = ''model-x'',
         u_createdAt = 0\<rparr>,
        \<lparr>u_sessionId = ''s1'', inputTokens = 80, outputTokens = 60, model = ''model-x'',
         u_createdAt = 1\<rparr>]"
    by (simp add: getSessionUsageRecords_def demo_usage_def recordUsage_def)
  have rc: "getSessionUsageRecords scenario_c ''s1''
     = [\<lparr>u_sessionId = ''s1'', inputTokens = 120, outputTokens = 340, model = ''model-x'',
         u_createdAt = 0\<rparr>]"
    by (simp add: getSessionUsageRecords_def scenario_c_def recordUsage_def)
  have re: "getSessionUsageRecords Map.empty ''s1'' = []"
    by (simp add: getSessionUsageRecords_def)
  note d = getSessionUsage_totals [of demo_usage "''s1''", unfolded Let_def rd]
  note c = getSessionUsage_totals [of scenario_c "''s1''", unfolded Let_def rc]
  note e = getSessionUsage_totals [of Map.empty "''s1''", unfolded Let_def re]
  have D: "totalInputTokens (getSessionUsage demo_usage ''s1'') = Finite 200 \<and>
           totalOutputTokens (getSessionUsage demo_usage ''s1'') = Finite 400 \<and>
           totalTokens (getSessionUsage demo_usage ''s1'') = Finite 600 \<and>
           estimatedCostUsd (getSessionUsage demo_usage ''s1'')
             = Finite (3804640965202595 / 576460752303423488)"
    using d [THEN conjunct2, THEN conjunct2, THEN conjunct2, THEN conjunct1]
    by (simp add: w_value)
  have Dn: "apiCalls (getSessionUsage demo_usage ''s1'') = 2"
    using d [THEN conjunct1] by simp
  have C: "totalInputTokens (getSessionUsage scenario_c ''s1'') = Finite 120 \<and>
           totalOutputTokens (getSessionUsage scenario_c ''s1'') = Finite 340 \<and>
           totalTokens (getSessionUsage scenario_c ''s1'') = Finite 460 \<and>
           estimatedCostUsd (getSessionUsage scenario_c ''s1'')
             = Finite (786868926894173 / 144115188075855872)"
    using c [THEN conjunct2, THEN conjunct2, THEN conjunct2, THEN conjunct1]
    by (simp add: r_value)
  have Cn: "apiCalls (getSessionUsage scenario_c ''s1'') = 1"
    using c [THEN conjunct1] by simp
  have E: "totalInputTokens (getSessionUsage Map.empty ''s1'') = Finite 0 \<and>
           totalOutputTokens (getSessionUsage Map.empty ''s1'') = Finite 0 \<and>
           totalTokens (getSessionUsage Map.empty ''s1'') = Finite 0 \<and>
           apiCalls (getSessionUsage Map.empty ''s1'') = 0 \<and>
           estimatedCostUsd (getSessionUsage Map.empty ''s1'') = Finite 0"
    using e [THEN conjunct2, THEN conjunct2, THEN conjunct2, THEN conjunct2] by simp
  from rd re D Dn C Cn E show ?thesis by simp
qed

text \<open>
  C5 as stated fails. In the spec's own scenario of one call with 120 and 340 tokens the
  estimated cost is the double nearest to 0.00546, which is neither the value of
  \<^verbatim>\<open>120 * COST_PER_INPUT_TOKEN + 340 * COST_PER_OUTPUT_TOKEN\<close> in double arithmetic
  (0.0054600000000000004, the next double) nor the exact 0.00546. And for two calls with
  9007199254740991 and 2 input tokens the input total is 9007199254740992, not the sum
  9007199254740993 of the records' counts.
\<close>

theorem getSessionUsage_rounding_counterexample:
  "estimatedCostUsd (getSessionUsage scenario_c ''s1'')
     = Finite (786868926894173 / 144115188075855872) \<and>
   dadd (dmul (totalInputTokens (getSessionUsage scenario_c ''s1'')) COST_PER_INPUT_TOKEN)
        (dmul (totalOutputTokens (getSessionUsage scenario_c ''s1'')) COST_PER_OUTPUT_TOKEN)
     = Finite (6294951415153385 / 1152921504606846976) \<and>
   estimatedCostUsd (getSessionUsage scenario_c ''s1'')
     \<noteq> dadd (dmul (totalInputTokens (getSessionUsage scenario_c ''s1'')) COST_PER_INPUT_TOKEN)
             (dmul (totalOutputTokens (getSessionUsage scenario_c ''s1'')) COST_PER_OUTPUT_TOKEN) \<and>
   estimatedCostUsd (getSessionUsage scenario_c ''s1'') \<noteq> Finite (120 * (3 / 1000000) + 340 * (15 / 1000000)) \<and>
   sum_list (map inputTokens (getSessionUsageRecords big_sum ''s1'')) = 9007199254740993 \<and>
   totalInputTokens (getSessionUsage big_sum ''s1'') = Finite 9007199254740992"
proof -
  have tin: "totalInputTokens (getSessionUsage scenario_c ''s1'') = Finite 120"
    and tout: "totalOutputTokens (getSessionUsage scenario_c ''s1'') = Finite 340"
    by (simp_all add: getSessionUsage_def scenario_c_def recordUsage_def Let_def safe_ints)
  have raw: "dadd (dmul (Finite 120) COST_PER_INPUT_TOKEN) (dmul (Finite 340) COST_PER_OUTPUT_TOKEN)
      = Finite (6294951415153385 / 1152921504606846976)"
    unfolding COST_PER_INPUT_TOKEN_def COST_PER_OUTPUT_TOKEN_def c1_value c2_value dmul.simps
      p1_value p2_value dadd.simps s_value ..
  have "estimatedCostUsd (getSessionUsage scenario_c ''s1'')
      = parseFloat (toFixed6 (dadd (dmul (Finite 120) COST_PER_INPUT_TOKEN)
                                   (dmul (Finite 340) COST_PER_OUTPUT_TOKEN)))"
    using usage_summary(3) [of scenario_c "''s1''"] by (simp only: tin tout)
  also have "\<dots> = to_double (273 / 50000)" using cost_nearest [of 120 340] by simp
  finally have cost: "estimatedCostUsd (getSessionUsage scenario_c ''s1'')
      = Finite (786868926894173 / 144115188075855872)" by (simp only: r_value)
  have big: "totalInputTokens (getSessionUsage big_sum ''s1'') = Finite 9007199254740992"
    by (simp add: getSessionUsage_def big_sum_def recordUsage_def Let_def safe_ints tie_value)
  have recs: "sum_list (map inputTokens (getSessionUsageRecords big_sum ''s1'')) = 9007199254740993"
    by (simp add: getSessionUsageRecords_def big_sum_def recordUsage_def)
  show ?thesis
    unfolding cost tin tout raw big recs by simp
qed

subsection \<open>AIService\<close>

text \<open>
  C7. \<^verbatim>\<open>formatMessagesForClaude\<close> turns each message into exactly one turn, in order. A
  message of the model (\<^verbatim>\<open>ai\<close>) becomes an assistant turn with its content unchanged; a
  message of a partner becomes a user turn whose content is the partner's label,
  \<^verbatim>\<open>Partner A\<close> or \<^verbatim>\<open>Partner B\<close>, a colon and a space, then the message's content.
\<close>

theorem formatMessagesForClaude_roles:
  "length (formatMessagesForClaude msgs) = length msgs \<and>
   (\<forall>i < length msgs.
      (m_author (msgs ! i) = ai \<longrightarrow>
         formatMessagesForClaude msgs ! i
           = \<lparr>role = assistant, content = m_content (msgs ! i)\<rparr>) \<and>
      (m_author (msgs ! i) = partner_a \<longrightarrow>
         formatMessagesForClaude msgs ! i
           = \<lparr>role = user, content = ''Partner A: '' @ m_content (msgs ! i)\<rparr>) \<and>
      (m_author (msgs ! i) = partner_b \<longrightarrow>
         formatMessagesForClaude msgs ! i
           = \<lparr>role = user, content = ''Partner B: '' @ m_content (msgs ! i)\<rparr>))"
  by (simp add: formatMessagesForClaude_def)

theorem formatMessagesForClaude_roles_witness:
  "length (formatMessagesForClaude demo_history) = 4 \<and>
   m_author (demo_history ! 0) = partner_a \<and>
   formatMessagesForClaude demo_history ! 0
     = \<lparr>role = user, content = ''Partner A: Should we move?''\<rparr> \<and>
   m_author (demo_history ! 1) = ai \<and>
   formatMessagesForClaude demo_history ! 1
     = \<lparr>role = assistant, content = ''What matters most?''\<rparr> \<and>
   m_author (demo_history ! 2) = partner_b \<and>
   formatMessagesForClaude demo_history ! 2
     = \<lparr>role = user, content = ''Partner B: The heat''\<rparr>"
  using formatMessagesForClaude_roles [of demo_history]
  by (simp add: demo_history_def formatMessagesForClaude_def)

text \<open>
  C10. A message whose author is \<^verbatim>\<open>system_summary\<close> becomes a user turn with the label
  \<^verbatim>\<open>Partner B: \<close> before its content, and so does every message whose author is
  neither \<^verbatim>\<open>ai\<close> nor \<^verbatim>\<open>partner_a\<close>.
\<close>

theorem formatMessagesForClaude_system_summary:
  assumes "i < length msgs"
  shows "(m_author (msgs ! i) = system_summary \<longrightarrow>
            formatMessagesForClaude msgs ! i
              = \<lparr>role = user, content = ''Partner B: '' @ m_content (msgs ! i)\<rparr>) \<and>
         (m_author (msgs ! i) \<noteq> ai \<and> m_author (msgs ! i) \<noteq> partner_a \<longrightarrow>
            formatMessagesForClaude msgs ! i
              = \<lparr>role = user, content = ''Partner B: '' @ m_content (msgs ! i)\<rparr>)"
  using assms by (simp add: formatMessagesForClaude_def)

theorem formatMessagesForClaude_system_summary_witness:
  "3 < length demo_history \<and>
   m_author (demo_history ! 3) = system_summary \<and>
   formatMessagesForClaude demo_history ! 3
     = \<lparr>role = user, content = ''Partner B: They discussed moving''\<rparr>"
  using formatMessagesForClaude_system_summary [of 3 demo_history]
  by (simp add: demo_history_def formatMessagesForClaude_def)

text \<open>
  C4. When the model call of a turn is rejected with an error \<open>e\<close>, the rest of
  \<^verbatim>\<open>getAIResponse\<close> returns that error and changes neither the store nor the usage
  records: the session's history and usage records are what they were. The call's promise
  is resolved and the session's entry in the lock map is removed, so that the next call
  for the session goes straight to the model. The part of the call before the model
  call changes neither the store nor the usage records either, and a call that finds
  no lock for its session, run by itself to the failure, ends in exactly this way.
\<close>

theorem getAIResponse_model_error:
  assumes "reply c = Inl e"
  shows "(\<exists>w'. getAIResponse_finish sid lock c w = (Inl e, w') \<and>
               db w' = db w \<and> usage w' = usage w \<and>
               getConversationHistory (db w') sid = getConversationHistory (db w) sid \<and>
               getSessionUsageRecords (usage w') sid = getSessionUsageRecords (usage w) sid \<and>
               sessionLocks w' sid = None \<and> lock \<in> settled w' \<and>
               fst (getAIResponse_enter sid w')
                 = AwaitModel sid (allocated w')
                     (formatMessagesForClaude (getConversationHistory (db w') sid))) \<and>
         db (snd (getAIResponse_enter sid w)) = db w \<and>
         usage (snd (getAIResponse_enter sid w)) = usage w \<and>
         db (snd (getAIResponse_acquire sid w)) = db w \<and>
         usage (snd (getAIResponse_acquire sid w)) = usage w \<and>
         (sessionLocks w sid = None \<longrightarrow>
            (\<exists>w'. run [Call sid, ModelSettled 0 c] (w, []) = Some (w', [Returned (Inl e)]) \<and>
                  db w' = db w \<and> usage w' = usage w \<and> sessionLocks w' sid = None \<and>
                  allocated w \<in> settled w'))"
proof -
  let ?w' = "w\<lparr>settled := insert lock (settled w),
               sessionLocks := (sessionLocks w)(sid := None)\<rparr>"
  have fin: "getAIResponse_finish sid lock c w = (Inl e, ?w')"
    using assms by (rule finish_rejected)
  have next_turn: "fst (getAIResponse_enter sid ?w')
      = AwaitModel sid (allocated ?w')
          (formatMessagesForClaude (getConversationHistory (db ?w') sid))"
    by (simp add: getAIResponse_enter_def getAIResponse_acquire_def Let_def)
  have segment: "\<exists>w'. getAIResponse_finish sid lock c w = (Inl e, w') \<and>
               db w' = db w \<and> usage w' = usage w \<and>
               getConversationHistory (db w') sid = getConversationHistory (db w) sid \<and>
               getSessionUsageRecords (usage w') sid = getSessionUsageRecords (usage w) sid \<and>
               sessionLocks w' sid = None \<and> lock \<in> settled w' \<and>
               fst (getAIResponse_enter sid w')
                 = AwaitModel sid (allocated w')
                     (formatMessagesForClaude (getConversationHistory (db w') sid))"
    using fin next_turn by (intro exI [of _ ?w']) simp
  have alone: "sessionLocks w sid = None \<longrightarrow>
            (\<exists>w'. run [Call sid, ModelSettled 0 c] (w, []) = Some (w', [Returned (Inl e)]) \<and>
                  db w' = db w \<and> usage w' = usage w \<and> sessionLocks w' sid = None \<and>
                  allocated w \<in> settled w')"
    using assms
    by (simp add: getAIResponse_enter_def getAIResponse_acquire_def Let_def finish_rejected)
  from segment alone enter_keeps_data [of sid w] acquire_keeps_data [of sid w]
  show ?thesis by blast
qed

theorem getAIResponse_model_error_witness:
  "reply demo_failure = Inl (Error ''overloaded'') \<and>
   sessionLocks demo_world ''s1'' = None \<and>
   map_option snd (run [Call ''s1'', ModelSettled 0 demo_failure] (demo_world, []))
     = Some [Returned (Inl (Error ''overloaded''))] \<and>
   map_option (\<lambda>s. db (fst s)) (run [Call ''s1'', ModelSettled 0 demo_failure] (demo_world, []))
     = Some (db demo_world) \<and>
   map_option (\<lambda>s. usage (fst s)) (run [Call ''s1'', ModelSettled 0 demo_failure] (demo_world, []))
     = Some (usage demo_world) \<and>
   map_option (\<lambda>s. sessionLocks (fst s) ''s1'')
       (run [Call ''s1'', ModelSettled 0 demo_failure] (demo_world, []))
     = Some None \<and>
   fst (getAIResponse_finish ''s1'' 0 demo_failure demo_world) = Inl (Error ''overloaded'') \<and>
   db (snd (getAIResponse_finish ''s1'' 0 demo_failure demo_world)) = db demo_world \<and>
   usage (snd (getAIResponse_finish ''s1'' 0 demo_failure demo_world)) = usage demo_world"
  using getAIResponse_model_error [of demo_failure "Error ''overloaded''" "''s1''" 0 demo_world]
  by (simp add: demo_failure_def demo_world_def empty_world_def getAIResponse_finish_def
        getAIResponse_enter_def getAIResponse_acquire_def Let_def)

text \<open>
  C8. When the model call is fulfilled, on a store whose two maps have the same keys, the
  turn returns normally. If the response has a text block, the reply text is the text of
  the first one; if it has none, the reply text is the empty string. In both cases a
  message of the model with that text is appended to the session's history.
\<close>

theorem getAIResponse_reply_text:
  assumes "store_inv (db w)" and "reply c = Inr response"
  shows "(\<forall>pre b post.
            response_content response = pre @ b # post \<and> b_type b = ''text'' \<and>
            (\<forall>x\<in>set pre. b_type x \<noteq> ''text'') \<longrightarrow>
            (\<exists>w'. getAIResponse_finish sid lock c w
                     = (Inr \<lparr>r_content = b_text b,
                             r_inputTokens = input_tokens response,
                             r_outputTokens = output_tokens response\<rparr>, w') \<and>
                   getConversationHistory (db w') sid
                     = getConversationHistory (db w) sid
                       @ [\<lparr>m_id = c_uuid c, m_sessionId = sid, m_author = ai,
                           m_content = b_text b, m_createdAt = c_messageNow c\<rparr>])) \<and>
         ((\<forall>x\<in>set (response_content response). b_type x \<noteq> ''text'') \<longrightarrow>
            (\<exists>w'. getAIResponse_finish sid lock c w
                     = (Inr \<lparr>r_content = [],
                             r_inputTokens = input_tokens response,
                             r_outputTokens = output_tokens response\<rparr>, w') \<and>
                   getConversationHistory (db w') sid
                     = getConversationHistory (db w) sid
                       @ [\<lparr>m_id = c_uuid c, m_sessionId = sid, m_author = ai,
                           m_content = [], m_createdAt = c_messageNow c\<rparr>]))"
proof (intro conjI allI impI)
  fix pre b post
  assume "response_content response = pre @ b # post \<and> b_type b = ''text'' \<and>
            (\<forall>x\<in>set pre. b_type x \<noteq> ''text'')"
  then have "find (\<lambda>block. b_type block = ''text'') (response_content response) = Some b"
    by (simp add: find_first)
  with finish_fulfilled [OF assms, of sid lock]
  show "\<exists>w'. getAIResponse_finish sid lock c w
                     = (Inr \<lparr>r_content = b_text b,
                             r_inputTokens = input_tokens response,
                             r_outputTokens = output_tokens response\<rparr>, w') \<and>
                   getConversationHistory (db w') sid
                     = getConversationHistory (db w) sid
                       @ [\<lparr>m_id = c_uuid c, m_sessionId = sid, m_author = ai,
                           m_content = b_text b, m_createdAt = c_messageNow c\<rparr>]"
    by auto
next
  assume "\<forall>x\<in>set (response_content response). b_type x \<noteq> ''text''"
  then have "find (\<lambda>block. b_type block = ''text'') (response_content response) = None"
    by (simp add: find_None_iff)
  with finish_fulfilled [OF assms, of sid lock]
  show "\<exists>w'. getAIResponse_finish sid lock c w
                     = (Inr \<lparr>r_content = [],
                             r_inputTokens = input_tokens response,
                             r_outputTokens = output_tokens response\<rparr>, w') \<and>
                   getConversationHistory (db w') sid
                     = getConversationHistory (db w) sid
                       @ [\<lparr>m_id = c_uuid c, m_sessionId = sid, m_author = ai,
                           m_content = [], m_createdAt = c_messageNow c\<rparr>]"
    by auto
qed

theorem getAIResponse_reply_text_witness:
  "store_inv (db demo_world) \<and>
   reply demo_reply = Inr demo_response \<and>
   response_content demo_response
     = [\<lparr>b_type = ''thinking'', b_text = ''''\<rparr>]
       @ \<lparr>b_type = ''text'', b_text = ''What matters most?''\<rparr>
       # [\<lparr>b_type = ''text'', b_text = ''Anything else?''\<rparr>] \<and>
   fst (getAIResponse_finish ''s1'' 0 demo_reply demo_world)
     = Inr \<lparr>r_content = ''What matters most?'', r_inputTokens = 120, r_outputTokens = 340\<rparr> \<and>
   reply demo_reply_no_text = Inr demo_response_no_text \<and>
   fst (getAIResponse_finish ''s1'' 0 demo_reply_no_text demo_world)
     = Inr \<lparr>r_content = [], r_inputTokens = 50, r_outputTokens = 7\<rparr> \<and>
   getConversationHistory (db (snd (getAIResponse_finish ''s1'' 0 demo_reply_no_text demo_world)))
       ''s1''
     = getConversationHistory (db demo_world) ''s1''
       @ [\<lparr>m_id = ''u2'', m_sessionId = ''s1'', m_author = ai, m_content = [],
           m_createdAt = 22\<rparr>]"
  using getAIResponse_reply_text [of demo_world demo_reply demo_response "''s1''" 0]
        getAIResponse_reply_text [of demo_world demo_reply_no_text demo_response_no_text "''s1''" 0]
        store_inv_demo
  by (simp add: demo_world_def demo_store_eq demo_reply_def demo_response_def
        demo_reply_no_text_def demo_response_no_text_def empty_world_def
        getAIResponse_finish_def getConversationHistory_def getMessages_def
        recordUsage_def saveMessage_def getSession_def addMessage_def AI_MODEL_def
        store_inv_def Let_def)

end
